theory Spec2Isabelle
  imports Main "HOL-Library.AList" "HOL-Library.Char_ord" "HOL-Library.List_Lexorder"
begin

section \<open>Python values, dictionaries and exceptions\<close>

text \<open>
  A Python dictionary is an association list with Python's own behaviour: lookup finds the
  binding of a key, assignment replaces the binding in place or appends a new one at the
  end (\<open>AList.update\<close>), and the keys are listed in insertion order. Floating-point
  numbers are values of a type parameter \<open>'f\<close>: their arithmetic is never computed by the
  model, it is supplied by whoever uses a definition that needs it.
\<close>

datatype 'f pyval =
    PNone
  | PBool bool
  | PInt int
  | PFloat 'f
  | PStr string
  | PList "'f pyval list"
  | PDict "(string \<times> 'f pyval) list"

type_synonym 'f state = "(string \<times> 'f pyval) list"

text \<open>
  Exceptions are values: the ones of class \<open>Exception\<close>, which \<open>run_graph\<close> catches.
  \<open>KeyError\<close> carries its argument (the missing key or the message it was built with);
  \<open>OtherException\<close> is any other exception of that class raised by a node body, with
  what \<open>str\<close> gives for it. What is raised outside that class (a keyboard interrupt, a
  cancelled task) passes through the \<open>except\<close> clause of \<open>run_graph\<close> and is not among
  these values.
\<close>

datatype error =
    ValueError string
  | TypeError string
  | KeyError string
  | AttributeError string
  | OverflowError string
  | OtherException string

text \<open>\<open>d.get(k, dflt)\<close>.\<close>

definition dict_get :: "('k \<times> 'v) list \<Rightarrow> 'k \<Rightarrow> 'v \<Rightarrow> 'v" where
  "dict_get d k dflt = (case map_of d k of None \<Rightarrow> dflt | Some v \<Rightarrow> v)"

definition dict_keys :: "('k \<times> 'v) list \<Rightarrow> 'k list" where
  "dict_keys d = remdups (map fst d)"

definition hex_digit :: "nat \<Rightarrow> char" where
  "hex_digit n = ''0123456789abcdef'' ! (n mod 16)"

text \<open>
  \<open>repr\<close> of a string whose characters are ASCII: the quote is \<open>'\<close> unless the string holds
  a \<open>'\<close> and no \<open>"\<close>; the quote and the backslash are escaped, tab, newline and carriage
  return are written \<open>\t\<close>, \<open>\n\<close>, \<open>\r\<close>, other control characters as \<open>\xhh\<close>. A string is a
  list of bytes here, and the bytes from 128 up, which encode the other characters, are
  kept as they are; Python escapes those of these characters that are not printable, so for
  a name holding one the text of a message differs from Python's.
\<close>

definition repr_char :: "char \<Rightarrow> char \<Rightarrow> string" where
  "repr_char q c =
     (if c = q \<or> c = CHR 0x5C then [CHR 0x5C, c]
      else if c = CHR 0x09 then [CHR 0x5C, CHR ''t'']
      else if c = CHR 0x0A then [CHR 0x5C, CHR ''n'']
      else if c = CHR 0x0D then [CHR 0x5C, CHR ''r'']
      else if (of_char c :: nat) < 32 \<or> c = CHR 0x7F
        then [CHR 0x5C, CHR ''x'', hex_digit (of_char c div 16), hex_digit (of_char c)]
      else [c])"

definition py_repr :: "string \<Rightarrow> string" where
  "py_repr s =
     (let q = (if CHR 0x27 \<in> set s \<and> CHR 0x22 \<notin> set s then CHR 0x22 else CHR 0x27)
      in q # concat (map (repr_char q) s) @ [q])"

fun join :: "string \<Rightarrow> string list \<Rightarrow> string" where
  "join sep [] = []"
| "join sep [x] = x"
| "join sep (x # y # ys) = x @ sep @ join sep (y # ys)"

definition py_repr_list :: "string list \<Rightarrow> string" where
  "py_repr_list xs = ''['' @ join '', '' (map py_repr xs) @ '']''"

text \<open>\<open>str(exc)\<close>: the message, except for \<open>KeyError\<close>, which prints the \<open>repr\<close> of its argument.\<close>

fun exc_str :: "error \<Rightarrow> string" where
  "exc_str (ValueError m) = m"
| "exc_str (TypeError m) = m"
| "exc_str (KeyError k) = py_repr k"
| "exc_str (AttributeError m) = m"
| "exc_str (OverflowError m) = m"
| "exc_str (OtherException m) = m"

section \<open>The engine's data model\<close>

subsection \<open>ToolRegistry\<close>

record 'c tool_registry =
  tools :: "(string \<times> 'c) list"

definition register :: "'c tool_registry \<Rightarrow> string \<Rightarrow> 'c \<Rightarrow> 'c tool_registry" where
  "register tr name fn = tr\<lparr>tools := AList.update name fn (tools tr)\<rparr>"

definition get :: "'c tool_registry \<Rightarrow> string \<Rightarrow> error + 'c" where
  "get tr name =
     (case map_of (tools tr) name of
        None \<Rightarrow> Inl (KeyError (''Tool '' @ [CHR 0x27] @ name @ [CHR 0x27] @ '' is not registered''))
      | Some fn \<Rightarrow> Inr fn)"

definition list_tools :: "'c tool_registry \<Rightarrow> string list" where
  "list_tools tr = sort (dict_keys (tools tr))"

subsection \<open>NodeResult, GraphDefinition, GraphRunRecord\<close>

record 's node_result =
  state :: 's
  next_node :: "string option"
  log :: "string option"

text \<open>
  The records of the engine leave two types open: \<open>'s\<close>, what stands for a state
  dictionary, and \<open>'n\<close>, what a node function is. Up to the section on references, a state
  is its content (\<open>'f state\<close>): what a node returns is described by what the state holds at
  the moment it is returned. Where it matters that Python hands on references to the same
  dictionary and list objects, a state is an address in a store (see the section on
  references).
\<close>

text \<open>
  What a node function hands back, after any awaiting: a \<open>NodeResult\<close>, or some other
  value (a dictionary is \<open>RetValue (PDict d)\<close>). A node body that raises is \<open>Inl\<close>.
\<close>

datatype 'f raw_result =
    RetNodeResult "'f state node_result"
  | RetValue "'f pyval"

type_synonym ('f, 'c) node_callable = "'f state \<Rightarrow> 'c tool_registry \<Rightarrow> error + 'f raw_result"

record 'n graph_definition =
  graph_id :: string
  nodes :: "(string \<times> 'n) list"
  edges :: "(string \<times> string list) list"
  start_node :: string
  description :: "string option"

record 's log_entry =
  node :: string
  entry_log :: "string option"
  state_snapshot :: 's

record 's graph_run_record =
  run_id :: string
  run_graph_id :: string
  current_state :: 's
  status :: string
  logs :: "'s log_entry list"
  current_node :: "string option"
  error :: "string option"

record ('s, 'n, 'c) graph_engine =
  graphs :: "(string \<times> 'n graph_definition) list"
  runs :: "(string \<times> 's graph_run_record) list"
  node_library :: "(string \<times> 'n) list"
  tool_registry :: "'c tool_registry"

type_synonym ('f, 'c) value_graph = "('f, 'c) node_callable graph_definition"

type_synonym ('f, 'c) value_engine = "('f state, ('f, 'c) node_callable, 'c) graph_engine"

section \<open>register_graph\<close>

text \<open>An edge value as the caller gives it: a list of names, or a single name.\<close>

datatype edge_value = EList "string list" | EName string

fun normalize_edge :: "edge_value \<Rightarrow> string list" where
  "normalize_edge (EList vs) = vs"
| "normalize_edge (EName v) = [v]"

definition unknown_node_msg :: "string \<Rightarrow> string list \<Rightarrow> string" where
  "unknown_node_msg name available =
     ''Unknown node '' @ [CHR 0x27] @ name @ [CHR 0x27] @ ''. Available: '' @ py_repr_list available"

definition start_node_msg :: "string \<Rightarrow> string" where
  "start_node_msg start = ''Start node '' @ [CHR 0x27] @ start @ [CHR 0x27] @ '' must be in nodes list''"

text \<open>The loop over the requested names: it stops at the first name the library lacks.\<close>

fun build_node_map ::
  "(string \<times> 'n) list \<Rightarrow> string list \<Rightarrow> (string \<times> 'n) list \<Rightarrow> error + (string \<times> 'n) list" where
  "build_node_map lib [] node_map = Inr node_map"
| "build_node_map lib (name # rest) node_map =
     (case map_of lib name of
        None \<Rightarrow> Inl (ValueError (unknown_node_msg name (sort (dict_keys lib))))
      | Some fn \<Rightarrow> build_node_map lib rest (AList.update name fn node_map))"

text \<open>
  The identifier drawn by \<open>uuid4\<close> is an argument. The result pairs what the call returns or
  raises with the engine afterwards.
\<close>

definition register_graph ::
  "('s, 'n, 'c) graph_engine \<Rightarrow> string \<Rightarrow> string list \<Rightarrow> (string \<times> edge_value) list \<Rightarrow> string \<Rightarrow>
   string option \<Rightarrow> (error + string) \<times> ('s, 'n, 'c) graph_engine" where
  "register_graph eng gid node_names edges_in start descr =
     (case build_node_map (node_library eng) node_names [] of
        Inl e \<Rightarrow> (Inl e, eng)
      | Inr node_map \<Rightarrow>
          if map_of node_map start = None then (Inl (ValueError (start_node_msg start)), eng)
          else
            let normalized_edges = map (\<lambda>(k, v). (k, normalize_edge v)) edges_in;
                g = \<lparr>graph_id = gid, nodes = node_map, edges = normalized_edges,
                     start_node = start, description = descr\<rparr>
            in (Inr gid, eng\<lparr>graphs := AList.update gid g (graphs eng)\<rparr>))"

section \<open>Execution\<close>

definition run_node ::
  "'c tool_registry \<Rightarrow> ('f, 'c) node_callable \<Rightarrow> 'f state \<Rightarrow> error + 'f state node_result" where
  "run_node tr fn st =
     (case fn st tr of
        Inl e \<Rightarrow> Inl e
      | Inr (RetNodeResult r) \<Rightarrow> Inr r
      | Inr (RetValue (PDict d)) \<Rightarrow> Inr \<lparr>state = d, next_node = None, log = None\<rparr>
      | Inr (RetValue _) \<Rightarrow> Inl (TypeError ''Node must return NodeResult or dict''))"

definition multiple_edges_msg :: "string \<Rightarrow> string" where
  "multiple_edges_msg n =
     ''Node '' @ [CHR 0x27] @ n @ [CHR 0x27] @
     '' has multiple edges but no next_node provided by the node logic''"

text \<open>
  One pass through the body of the \<open>while\<close> loop of \<open>_execute\<close>, for the node \<open>cur\<close>: the
  next value of \<open>current_node\<close>, the new state and the logs, or the exception raised. The
  state in the log entry is the content of \<open>result.state\<close> when the node returns. The source
  stores the object itself, so what a later in-place change does to an entry already
  logged is not seen here; \<open>execute_step_ref\<close> follows it.
\<close>

definition execute_step ::
  "('f, 'c) value_graph \<Rightarrow> 'c tool_registry \<Rightarrow> string \<Rightarrow> 'f state \<Rightarrow> 'f state log_entry list \<Rightarrow>
   error + (string option \<times> 'f state \<times> 'f state log_entry list)" where
  "execute_step g tr cur st lg =
     (case map_of (nodes g) cur of
        None \<Rightarrow> Inl (KeyError cur)
      | Some node_fn \<Rightarrow>
          (case run_node tr node_fn st of
             Inl e \<Rightarrow> Inl e
           | Inr result \<Rightarrow>
               let lg' = lg @ [\<lparr>node = cur, entry_log = log result, state_snapshot = state result\<rparr>]
               in (case next_node result of
                     Some n \<Rightarrow> Inr (Some n, state result, lg')
                   | None \<Rightarrow>
                       let next_candidates = dict_get (edges g) cur []
                       in if length next_candidates > 1 then Inl (ValueError (multiple_edges_msg cur))
                          else Inr (case next_candidates of [] \<Rightarrow> None | c # _ \<Rightarrow> Some c,
                                    state result, lg'))))"

text \<open>
  The loop runs while \<open>current_node\<close> is truthy: neither \<open>None\<close> nor the empty string. It
  has no bound, so the result is an option: \<open>None\<close> is a run that never returns.
\<close>

partial_function (option) execute_loop ::
  "('f, 'c) value_graph \<Rightarrow> 'c tool_registry \<Rightarrow> string option \<Rightarrow> 'f state \<Rightarrow> 'f state log_entry list \<Rightarrow>
   (error + 'f state \<times> 'f state log_entry list) option" where
  "execute_loop g tr cur st lg =
     (case cur of
        None \<Rightarrow> Some (Inr (st, lg))
      | Some n \<Rightarrow>
          if n = [] then Some (Inr (st, lg))
          else (case execute_step g tr n st lg of
                  Inl e \<Rightarrow> Some (Inl e)
                | Inr (cur', st', lg') \<Rightarrow> execute_loop g tr cur' st' lg'))"

declare execute_loop.simps [code]

definition execute ::
  "('f, 'c) value_graph \<Rightarrow> 'c tool_registry \<Rightarrow> 'f state \<Rightarrow>
   (error + 'f state \<times> 'f state log_entry list) option" where
  "execute g tr st = execute_loop g tr (Some (start_node g)) st []"

section \<open>run_graph and get_run\<close>

definition graph_not_found_msg :: "string \<Rightarrow> string" where
  "graph_not_found_msg gid = ''Graph '' @ [CHR 0x27] @ gid @ [CHR 0x27] @ '' not found''"

definition run_not_found_msg :: "string \<Rightarrow> string" where
  "run_not_found_msg rid = ''Run '' @ [CHR 0x27] @ rid @ [CHR 0x27] @ '' not found''"

text \<open>The record as it is created and published, before the first node runs.\<close>

definition new_run :: "string \<Rightarrow> string \<Rightarrow> 's \<Rightarrow> 's graph_run_record" where
  "new_run rid gid initial_state =
     \<lparr>run_id = rid, run_graph_id = gid, current_state = initial_state, status = ''running'',
      logs = [], current_node = None, error = None\<rparr>"

text \<open>
  \<open>run_graph\<close>, with the run identifier drawn by \<open>uuid4\<close> as an argument. No other call
  interleaves with the run. The outer option is \<open>None\<close> when the execution never returns.
  The \<open>current_state\<close> of the record is the content of \<open>dict(initial_state)\<close> when it is
  made; \<open>run_graph_ref\<close> follows the objects that this shallow copy shares with the initial
  state.
\<close>

definition run_graph ::
  "('f, 'c) value_engine \<Rightarrow> string \<Rightarrow> string \<Rightarrow> 'f state \<Rightarrow>
   ((error + 'f state graph_run_record) \<times> ('f, 'c) value_engine) option" where
  "run_graph eng rid gid initial_state =
     (case map_of (graphs eng) gid of
        None \<Rightarrow> Some (Inl (KeyError (graph_not_found_msg gid)), eng)
      | Some g \<Rightarrow>
          let run = new_run rid gid initial_state;
              eng1 = eng\<lparr>runs := AList.update rid run (runs eng)\<rparr>
          in (case execute g (tool_registry eng1) initial_state of
                None \<Rightarrow> None
              | Some (Inr (final_state, lgs)) \<Rightarrow>
                  let run' = run\<lparr>status := ''completed'', current_state := final_state,
                                 logs := lgs, current_node := None\<rparr>
                  in Some (Inr run', eng1\<lparr>runs := AList.update rid run' (runs eng1)\<rparr>)
              | Some (Inl exc) \<Rightarrow>
                  let run' = run\<lparr>status := ''failed'', error := Some (exc_str exc)\<rparr>
                  in Some (Inl exc, eng1\<lparr>runs := AList.update rid run' (runs eng1)\<rparr>)))"

definition get_run :: "('s, 'n, 'c) graph_engine \<Rightarrow> string \<Rightarrow> error + 's graph_run_record" where
  "get_run eng rid =
     (case map_of (runs eng) rid of
        None \<Rightarrow> Inl (KeyError (run_not_found_msg rid))
      | Some r \<Rightarrow> Inr r)"

definition list_graphs :: "('s, 'n, 'c) graph_engine \<Rightarrow> string list" where
  "list_graphs eng = dict_keys (graphs eng)"

definition list_nodes :: "('s, 'n, 'c) graph_engine \<Rightarrow> string list" where
  "list_nodes eng = sort (dict_keys (node_library eng))"

section \<open>Configurations a run passes through\<close>

text \<open>
  A configuration is what the loop holds at its head: \<open>current_node\<close>, \<open>current_state\<close> and
  \<open>logs\<close>. \<open>reaches g tr c c'\<close>: starting the loop at \<open>c\<close>, it arrives at its head with \<open>c'\<close>
  after some number of passes that raised nothing.
\<close>

inductive reaches ::
  "('f, 'c) value_graph \<Rightarrow> 'c tool_registry \<Rightarrow>
   (string option \<times> 'f state \<times> 'f state log_entry list) \<Rightarrow>
   (string option \<times> 'f state \<times> 'f state log_entry list) \<Rightarrow> bool"
  for g tr where
    reaches_start: "reaches g tr c c"
  | reaches_pass:
      "reaches g tr c (Some n, st, lg) \<Longrightarrow> n \<noteq> [] \<Longrightarrow> execute_step g tr n st lg = Inr c' \<Longrightarrow>
       reaches g tr c c'"

section \<open>Nodes and engines used as examples\<close>

text \<open>
  The node of the linear-execution property: the state it returns is its input with its own
  name appended to the list under \<open>visited\<close> (a missing list counts as empty).
\<close>

definition append_visited :: "string \<Rightarrow> 'f state \<Rightarrow> 'f state" where
  "append_visited name st =
     AList.update ''visited''
       (PList ((case map_of st ''visited'' of Some (PList xs) \<Rightarrow> xs | _ \<Rightarrow> []) @ [PStr name])) st"

definition visit_node :: "string \<Rightarrow> (unit, unit) node_callable" where
  "visit_node name st tr = Inr (RetNodeResult \<lparr>state = append_visited name st, next_node = None, log = None\<rparr>)"

definition redirect_node :: "string \<Rightarrow> string \<Rightarrow> (unit, unit) node_callable" where
  "redirect_node name target st tr =
     Inr (RetNodeResult \<lparr>state = append_visited name st, next_node = Some target, log = None\<rparr>)"

definition dict_node :: "string \<Rightarrow> (unit, unit) node_callable" where
  "dict_node name st tr = Inr (RetValue (PDict (append_visited name st)))"

definition int_node :: "(unit, unit) node_callable" where
  "int_node st tr = Inr (RetValue (PInt 5))"

definition example_library :: "(string \<times> (unit, unit) node_callable) list" where
  "example_library =
     [(''A'', visit_node ''A''), (''B'', visit_node ''B''), (''C'', visit_node ''C''),
      (''D'', dict_node ''D''), (''I'', int_node), (''R'', redirect_node ''R'' ''C''),
      (''E'', redirect_node ''E'' []), ([], visit_node [])]"

definition example_engine :: "(unit, unit) value_engine" where
  "example_engine = \<lparr>graphs = [], runs = [], node_library = example_library, tool_registry = \<lparr>tools = []\<rparr>\<rparr>"

definition engine_with :: "(unit, unit) value_graph \<Rightarrow> (unit, unit) value_engine" where
  "engine_with g = example_engine\<lparr>graphs := [(graph_id g, g)]\<rparr>"

definition ambiguous_graph :: "(unit, unit) value_graph" where
  "ambiguous_graph =
     \<lparr>graph_id = ''g1'',
      nodes = [(''A'', visit_node ''A''), (''B'', visit_node ''B''), (''C'', visit_node ''C'')],
      edges = [(''A'', [''B'']), (''B'', [''A'', ''C''])],
      start_node = ''A'', description = None\<rparr>"

definition int_graph :: "(unit, unit) value_graph" where
  "int_graph =
     \<lparr>graph_id = ''g2'',
      nodes = [(''A'', visit_node ''A''), (''I'', int_node)],
      edges = [(''A'', [''I''])],
      start_node = ''A'', description = None\<rparr>"

definition dangling_graph :: "(unit, unit) value_graph" where
  "dangling_graph =
     \<lparr>graph_id = ''g3'', nodes = [(''A'', visit_node ''A'')], edges = [(''A'', [''Z''])],
      start_node = ''A'', description = None\<rparr>"

definition override_graph :: "(unit, unit) value_graph" where
  "override_graph =
     \<lparr>graph_id = ''g4'',
      nodes = [(''R'', redirect_node ''R'' ''C''), (''B'', visit_node ''B''), (''C'', visit_node ''C'')],
      edges = [(''R'', [''B''])],
      start_node = ''R'', description = None\<rparr>"

definition empty_target_graph :: "(unit, unit) value_graph" where
  "empty_target_graph =
     \<lparr>graph_id = ''g5'',
      nodes = [(''E'', redirect_node ''E'' []), (''B'', visit_node ''B''), ([], visit_node [])],
      edges = [(''E'', [''B''])],
      start_node = ''E'', description = None\<rparr>"

definition dangling_override_graph :: "(unit, unit) value_graph" where
  "dangling_override_graph =
     \<lparr>graph_id = ''g6'', nodes = [(''R'', redirect_node ''R'' ''C'')], edges = [],
      start_node = ''R'', description = None\<rparr>"


section \<open>References: the store of dictionary and list objects\<close>

text \<open>
  Python passes dictionaries and lists by reference. \<open>_execute\<close> puts \<open>result.state\<close> itself
  into the log entry and hands the same object to the next node; \<open>dict(x)\<close> is a shallow
  copy, a new dictionary whose values are the same objects as those of \<open>x\<close>. To follow
  that, a value is an atom or the address of a list or of a dictionary, and the store
  gives every address its object. The addresses below \<open>next_dict\<close> and \<open>next_list\<close> are the
  objects created so far; a new object takes the next address.
\<close>

datatype 'f val =
    VNone
  | VBool bool
  | VInt int
  | VFloat 'f
  | VStr string
  | VList nat
  | VDict nat

record 'f heap =
  dicts :: "nat \<Rightarrow> (string \<times> 'f val) list"
  lists :: "nat \<Rightarrow> 'f val list"
  next_dict :: nat
  next_list :: nat

definition new_dict :: "'f heap \<Rightarrow> (string \<times> 'f val) list \<Rightarrow> nat \<times> 'f heap" where
  "new_dict h d = (next_dict h, h\<lparr>dicts := (dicts h)(next_dict h := d), next_dict := Suc (next_dict h)\<rparr>)"

definition new_list :: "'f heap \<Rightarrow> 'f val list \<Rightarrow> nat \<times> 'f heap" where
  "new_list h xs = (next_list h, h\<lparr>lists := (lists h)(next_list h := xs), next_list := Suc (next_list h)\<rparr>)"

text \<open>\<open>dict(x)\<close> for a dictionary \<open>x\<close>, \<open>d[k] = v\<close>, and \<open>l.extend(xs)\<close>.\<close>

definition copy_dict :: "'f heap \<Rightarrow> nat \<Rightarrow> nat \<times> 'f heap" where
  "copy_dict h a = new_dict h (dicts h a)"

definition set_item :: "'f heap \<Rightarrow> nat \<Rightarrow> string \<Rightarrow> 'f val \<Rightarrow> 'f heap" where
  "set_item h a k v = h\<lparr>dicts := (dicts h)(a := AList.update k v (dicts h a))\<rparr>"

definition extend_list :: "'f heap \<Rightarrow> nat \<Rightarrow> 'f val list \<Rightarrow> 'f heap" where
  "extend_list h l xs = h\<lparr>lists := (lists h)(l := lists h l @ xs)\<rparr>"

text \<open>
  What a value reads as, following references to the depth \<open>n\<close>; \<open>None\<close> when the structure
  is deeper.
\<close>

fun those_list :: "'a option list \<Rightarrow> 'a list option" where
  "those_list [] = Some []"
| "those_list (None # _) = None"
| "those_list (Some x # xs) = (case those_list xs of None \<Rightarrow> None | Some ys \<Rightarrow> Some (x # ys))"

fun view :: "nat \<Rightarrow> 'f heap \<Rightarrow> 'f val \<Rightarrow> 'f pyval option" where
  "view n h VNone = Some PNone"
| "view n h (VBool b) = Some (PBool b)"
| "view n h (VInt i) = Some (PInt i)"
| "view n h (VFloat x) = Some (PFloat x)"
| "view n h (VStr s) = Some (PStr s)"
| "view 0 h (VList l) = None"
| "view 0 h (VDict a) = None"
| "view (Suc n) h (VList l) =
     (case those_list (map (view n h) (lists h l)) of None \<Rightarrow> None | Some xs \<Rightarrow> Some (PList xs))"
| "view (Suc n) h (VDict a) =
     (case those_list (map (\<lambda>kv. case view n h (snd kv) of None \<Rightarrow> None | Some v \<Rightarrow> Some (fst kv, v))
                            (dicts h a)) of
        None \<Rightarrow> None
      | Some d \<Rightarrow> Some (PDict d))"

text \<open>The state at an address, read to the depth of a dictionary of lists of atoms.\<close>

definition read_state :: "'f heap \<Rightarrow> nat \<Rightarrow> 'f pyval option" where
  "read_state h a = view 2 h (VDict a)"

text \<open>
  \<open>unchanged h h'\<close>: every object of \<open>h\<close> is in \<open>h'\<close> with the same content; \<open>h'\<close> may hold
  more objects.
\<close>

definition unchanged :: "'f heap \<Rightarrow> 'f heap \<Rightarrow> bool" where
  "unchanged h h' \<longleftrightarrow>
     next_dict h \<le> next_dict h' \<and> next_list h \<le> next_list h' \<and>
     (\<forall>a. a < next_dict h \<longrightarrow> dicts h' a = dicts h a) \<and>
     (\<forall>l. l < next_list h \<longrightarrow> lists h' l = lists h l)"

subsection \<open>Nodes and execution on the store\<close>

text \<open>
  A node function receives the address of the state and works on the store. What it
  hands back is a \<open>NodeResult\<close> whose state is the address of a dictionary, or another value.
\<close>

datatype 'f ref_result =
    RefNodeResult "nat node_result"
  | RefValue "'f val"

type_synonym ('f, 'c) ref_callable =
  "nat \<Rightarrow> 'c tool_registry \<Rightarrow> 'f heap \<Rightarrow> (error + 'f ref_result) \<times> 'f heap"

type_synonym ('f, 'c) ref_graph = "('f, 'c) ref_callable graph_definition"

type_synonym ('f, 'c) ref_engine = "(nat, ('f, 'c) ref_callable, 'c) graph_engine"

definition run_node_ref ::
  "'c tool_registry \<Rightarrow> ('f, 'c) ref_callable \<Rightarrow> nat \<Rightarrow> 'f heap \<Rightarrow> (error + nat node_result) \<times> 'f heap" where
  "run_node_ref tr fn s h =
     (case fn s tr h of
        (Inl e, h') \<Rightarrow> (Inl e, h')
      | (Inr (RefNodeResult r), h') \<Rightarrow> (Inr r, h')
      | (Inr (RefValue (VDict a)), h') \<Rightarrow> (Inr \<lparr>state = a, next_node = None, log = None\<rparr>, h')
      | (Inr (RefValue _), h') \<Rightarrow> (Inl (TypeError ''Node must return NodeResult or dict''), h'))"

text \<open>
  One pass of the loop of \<open>_execute\<close>. The log entry and the next \<open>current_state\<close> are both
  the address \<open>state result\<close>: no copy is made.
\<close>

definition execute_step_ref ::
  "('f, 'c) ref_graph \<Rightarrow> 'c tool_registry \<Rightarrow> string \<Rightarrow> nat \<Rightarrow> nat log_entry list \<Rightarrow> 'f heap \<Rightarrow>
   (error + (string option \<times> nat \<times> nat log_entry list)) \<times> 'f heap" where
  "execute_step_ref g tr cur s lg h =
     (case map_of (nodes g) cur of
        None \<Rightarrow> (Inl (KeyError cur), h)
      | Some node_fn \<Rightarrow>
          (case run_node_ref tr node_fn s h of
             (Inl e, h') \<Rightarrow> (Inl e, h')
           | (Inr result, h') \<Rightarrow>
               let lg' = lg @ [\<lparr>node = cur, entry_log = log result, state_snapshot = state result\<rparr>]
               in (case next_node result of
                     Some n \<Rightarrow> (Inr (Some n, state result, lg'), h')
                   | None \<Rightarrow>
                       let next_candidates = dict_get (edges g) cur []
                       in if length next_candidates > 1
                          then (Inl (ValueError (multiple_edges_msg cur)), h')
                          else (Inr (case next_candidates of [] \<Rightarrow> None | c # _ \<Rightarrow> Some c,
                                     state result, lg'), h'))))"

partial_function (option) execute_loop_ref ::
  "('f, 'c) ref_graph \<Rightarrow> 'c tool_registry \<Rightarrow> string option \<Rightarrow> nat \<Rightarrow> nat log_entry list \<Rightarrow> 'f heap \<Rightarrow>
   ((error + nat \<times> nat log_entry list) \<times> 'f heap) option" where
  "execute_loop_ref g tr cur s lg h =
     (case cur of
        None \<Rightarrow> Some (Inr (s, lg), h)
      | Some n \<Rightarrow>
          if n = [] then Some (Inr (s, lg), h)
          else (case execute_step_ref g tr n s lg h of
                  (Inl e, h') \<Rightarrow> Some (Inl e, h')
                | (Inr (cur', s', lg'), h') \<Rightarrow> execute_loop_ref g tr cur' s' lg' h'))"

declare execute_loop_ref.simps [code]

text \<open>\<open>_execute\<close>: \<open>current_state = dict(state)\<close> is a new dictionary, then the loop.\<close>

definition execute_ref ::
  "('f, 'c) ref_graph \<Rightarrow> 'c tool_registry \<Rightarrow> nat \<Rightarrow> 'f heap \<Rightarrow>
   ((error + nat \<times> nat log_entry list) \<times> 'f heap) option" where
  "execute_ref g tr s h =
     (case copy_dict h s of
        (cur_state, h1) \<Rightarrow> execute_loop_ref g tr (Some (start_node g)) cur_state [] h1)"

text \<open>
  \<open>run_graph\<close>: the record is created with its own \<open>dict(initial_state)\<close>, and \<open>_execute\<close> is
  given \<open>initial_state\<close> itself.
\<close>

definition run_graph_ref ::
  "('f, 'c) ref_engine \<Rightarrow> string \<Rightarrow> string \<Rightarrow> nat \<Rightarrow> 'f heap \<Rightarrow>
   (((error + nat graph_run_record) \<times> ('f, 'c) ref_engine) \<times> 'f heap) option" where
  "run_graph_ref eng rid gid initial_state h =
     (case map_of (graphs eng) gid of
        None \<Rightarrow> Some ((Inl (KeyError (graph_not_found_msg gid)), eng), h)
      | Some g \<Rightarrow>
          (case copy_dict h initial_state of
             (record_state, h1) \<Rightarrow>
               let run = new_run rid gid record_state;
                   eng1 = eng\<lparr>runs := AList.update rid run (runs eng)\<rparr>
               in (case execute_ref g (tool_registry eng1) initial_state h1 of
                     None \<Rightarrow> None
                   | Some (Inr (final_state, lgs), h2) \<Rightarrow>
                       let run' = run\<lparr>status := ''completed'', current_state := final_state,
                                      logs := lgs, current_node := None\<rparr>
                       in Some ((Inr run', eng1\<lparr>runs := AList.update rid run' (runs eng1)\<rparr>), h2)
                   | Some (Inl exc, h2) \<Rightarrow>
                       let run' = run\<lparr>status := ''failed'', error := Some (exc_str exc)\<rparr>
                       in Some ((Inl exc, eng1\<lparr>runs := AList.update rid run' (runs eng1)\<rparr>), h2))))"

text \<open>
  What \<open>get_run\<close> shows for a run once \<open>run_graph\<close> has returned or raised, with every state
  read from the store as it is then: status, error, the current state, and for each log
  entry its node and its snapshot.
\<close>

definition observe_run ::
  "string \<Rightarrow> (((error + nat graph_run_record) \<times> ('f, 'c) ref_engine) \<times> 'f heap) option \<Rightarrow>
   (string \<times> string option \<times> 'f pyval option \<times> (string \<times> 'f pyval option) list) option" where
  "observe_run rid res =
     (case res of
        None \<Rightarrow> None
      | Some ((r, eng'), h') \<Rightarrow>
          (case get_run eng' rid of
             Inl e \<Rightarrow> None
           | Inr R \<Rightarrow> Some (status R, error R, read_state h' (current_state R),
                            map (\<lambda>e. (node e, read_state h' (state_snapshot e))) (logs R))))"

subsection \<open>Example nodes on the store\<close>

fun val_type_name :: "'f val \<Rightarrow> string" where
  "val_type_name VNone = ''NoneType''"
| "val_type_name (VBool _) = ''bool''"
| "val_type_name (VInt _) = ''int''"
| "val_type_name (VFloat _) = ''float''"
| "val_type_name (VStr _) = ''str''"
| "val_type_name (VList _) = ''list''"
| "val_type_name (VDict _) = ''dict''"

definition visited_list :: "'f heap \<Rightarrow> nat \<Rightarrow> 'f val list" where
  "visited_list h s = (case map_of (dicts h s) ''visited'' of Some (VList l) \<Rightarrow> lists h l | _ \<Rightarrow> [])"

text \<open>
  A node that builds its result in new objects:
  \<^verbatim>\<open>old = state.get("visited"); new_state = dict(state)\<close>,
  \<^verbatim>\<open>new_state["visited"] = (old if isinstance(old, list) else []) + [name]\<close>.
\<close>

definition fresh_visit_node :: "string \<Rightarrow> (unit, unit) ref_callable" where
  "fresh_visit_node name s tr h =
     (case copy_dict h s of
        (new_state, h1) \<Rightarrow>
          (case new_list h1 (visited_list h1 s @ [VStr name]) of
             (l, h2) \<Rightarrow>
               (Inr (RefNodeResult \<lparr>state = new_state, next_node = None, log = None\<rparr>),
                set_item h2 new_state ''visited'' (VList l))))"

text \<open>
  A node written as \<open>suggest_improvements\<close> is:
  \<^verbatim>\<open>new_state = dict(state); new_state.setdefault("visited", []).append(name)\<close>.
  The list already in the state is extended in place.
\<close>

definition in_place_visit_node :: "string \<Rightarrow> (unit, unit) ref_callable" where
  "in_place_visit_node name s tr h =
     (case copy_dict h s of
        (new_state, h1) \<Rightarrow>
          (case map_of (dicts h1 new_state) ''visited'' of
             None \<Rightarrow>
               (case new_list h1 [] of
                  (l, h2) \<Rightarrow>
                    (Inr (RefNodeResult \<lparr>state = new_state, next_node = None, log = None\<rparr>),
                     extend_list (set_item h2 new_state ''visited'' (VList l)) l [VStr name]))
           | Some (VList l) \<Rightarrow>
               (Inr (RefNodeResult \<lparr>state = new_state, next_node = None, log = None\<rparr>),
                extend_list h1 l [VStr name])
           | Some v \<Rightarrow>
               (Inl (AttributeError ([CHR 0x27] @ val_type_name v @ [CHR 0x27] @
                                     '' object has no attribute '' @ [CHR 0x27] @ ''append'' @
                                     [CHR 0x27])), h1)))"

text \<open>A store holding one object, the empty dictionary at address 0.\<close>

definition heap0 :: "unit heap" where
  "heap0 = \<lparr>dicts = (\<lambda>_. []), lists = (\<lambda>_. []), next_dict = 1, next_list = 0\<rparr>"

text \<open>
  A store holding the list \<open>["X"]\<close> at list address 0 and the dictionary
  \<open>{"visited": that list}\<close> at address 0.
\<close>

definition heap1 :: "unit heap" where
  "heap1 = \<lparr>dicts = (\<lambda>_. [])(0 := [(''visited'', VList 0)]), lists = (\<lambda>_. [])(0 := [VStr ''X'']),
            next_dict = 1, next_list = 1\<rparr>"



definition fresh_ambiguous_graph :: "(unit, unit) ref_graph" where
  "fresh_ambiguous_graph =
     \<lparr>graph_id = ''g'',
      nodes = [(''A'', fresh_visit_node ''A''), (''B'', fresh_visit_node ''B''),
               (''C'', fresh_visit_node ''C'')],
      edges = [(''A'', [''B'']), (''B'', [''A'', ''C''])],
      start_node = ''A'', description = None\<rparr>"

definition in_place_ambiguous_graph :: "(unit, unit) ref_graph" where
  "in_place_ambiguous_graph =
     \<lparr>graph_id = ''g'',
      nodes = [(''A'', in_place_visit_node ''A''), (''B'', in_place_visit_node ''B''),
               (''C'', in_place_visit_node ''C'')],
      edges = [(''A'', [''B'']), (''B'', [''A'', ''C''])],
      start_node = ''A'', description = None\<rparr>"

definition ref_engine_with :: "(unit, unit) ref_graph \<Rightarrow> (unit, unit) ref_engine" where
  "ref_engine_with g =
     \<lparr>graphs = [(graph_id g, g)], runs = [], node_library = nodes g,
      tool_registry = \<lparr>tools = []\<rparr>\<rparr>"


text \<open>
  \<open>pure_graph tr g\<close>: no node of the graph changes an object that exists when it is called.
  \<open>appends_name tr f name\<close>: called on an existing state, \<open>f\<close> changes no existing object
  and returns, with no \<open>next_node\<close>, a state that is the input with \<open>visited\<close> bound to a
  list holding the input's \<open>visited\<close> list followed by \<open>name\<close>.
\<close>

definition pure_graph :: "'c tool_registry \<Rightarrow> ('f, 'c) ref_graph \<Rightarrow> bool" where
  "pure_graph tr g \<longleftrightarrow> (\<forall>n f s h. map_of (nodes g) n = Some f \<longrightarrow> unchanged h (snd (f s tr h)))"


text \<open>What a pass of the loop leaves: the next node and the state, read from the store.\<close>

definition observe_pass ::
  "(error + (string option \<times> nat \<times> nat log_entry list)) \<times> 'f heap \<Rightarrow>
   (string option \<times> 'f pyval option) option" where
  "observe_pass res =
     (case res of
        (Inl e, h') \<Rightarrow> None
      | (Inr (cur', s', lg'), h') \<Rightarrow> Some (cur', read_state h' s'))"


section \<open>The code-review workflow: suggest_improvements and check_quality\<close>

text \<open>
  The two nodes of the quality loop compute with numbers taken out of the state, whose
  values may be of any type. Integers and booleans are computed here. Floating-point
  arithmetic is not: the operations on floats are the fields of a record, the first
  argument of every function below that needs them, so that what is proved holds for
  whatever these operations compute.
\<close>

record 'f float_ops =
  f_dec :: "int \<Rightarrow> nat \<Rightarrow> 'f"
  f_of_int :: "int \<Rightarrow> 'f option"
  f_add :: "'f \<Rightarrow> 'f \<Rightarrow> 'f"
  f_sub :: "'f \<Rightarrow> 'f \<Rightarrow> 'f"
  f_mul :: "'f \<Rightarrow> 'f \<Rightarrow> 'f"
  f_lt :: "'f \<Rightarrow> 'f \<Rightarrow> bool"
  f_le :: "'f \<Rightarrow> 'f \<Rightarrow> bool"
  f_lt_int :: "'f \<Rightarrow> int \<Rightarrow> bool"
  f_le_int :: "'f \<Rightarrow> int \<Rightarrow> bool"
  int_lt_f :: "int \<Rightarrow> 'f \<Rightarrow> bool"
  int_le_f :: "int \<Rightarrow> 'f \<Rightarrow> bool"
  f_round :: "'f \<Rightarrow> nat \<Rightarrow> 'f"
  f_str :: "'f \<Rightarrow> string"

text \<open>
  \<open>f_dec fo m k\<close> is the float written as the decimal literal \<open>m / 10^k\<close> (\<open>0.7\<close> is
  \<open>f_dec fo 7 1\<close>); \<open>f_of_int\<close> converts an integer and is \<open>None\<close> where Python raises
  \<open>OverflowError\<close>; \<open>f_round fo x n\<close> is \<open>round(x, n)\<close>; \<open>f_str\<close> is \<open>str\<close>.
\<close>

subsection \<open>Operations on values\<close>

fun type_name :: "'f pyval \<Rightarrow> string" where
  "type_name PNone = ''NoneType''"
| "type_name (PBool _) = ''bool''"
| "type_name (PInt _) = ''int''"
| "type_name (PFloat _) = ''float''"
| "type_name (PStr _) = ''str''"
| "type_name (PList _) = ''list''"
| "type_name (PDict _) = ''dict''"

definition quoted :: "string \<Rightarrow> string" where
  "quoted s = [CHR 0x27] @ s @ [CHR 0x27]"

datatype 'f num = NInt int | NFloat 'f

fun as_num :: "'f pyval \<Rightarrow> 'f num option" where
  "as_num (PBool b) = Some (NInt (if b then 1 else 0))"
| "as_num (PInt i) = Some (NInt i)"
| "as_num (PFloat x) = Some (NFloat x)"
| "as_num _ = None"

fun num_val :: "'f num \<Rightarrow> 'f pyval" where
  "num_val (NInt i) = PInt i"
| "num_val (NFloat x) = PFloat x"

fun to_float :: "'f float_ops \<Rightarrow> 'f num \<Rightarrow> error + 'f" where
  "to_float fo (NInt i) =
     (case f_of_int fo i of
        None \<Rightarrow> Inl (OverflowError ''int too large to convert to float'')
      | Some x \<Rightarrow> Inr x)"
| "to_float fo (NFloat x) = Inr x"

text \<open>\<open>a + n\<close> for an integer \<open>n\<close>.\<close>

definition add_int :: "'f float_ops \<Rightarrow> 'f pyval \<Rightarrow> int \<Rightarrow> error + 'f num" where
  "add_int fo a n =
     (case a of
        PStr _ \<Rightarrow> Inl (TypeError (''can only concatenate str (not '' @ [CHR 0x22] @ ''int'' @
                                  [CHR 0x22] @ '') to str''))
      | PList _ \<Rightarrow> Inl (TypeError (''can only concatenate list (not '' @ [CHR 0x22] @ ''int'' @
                                   [CHR 0x22] @ '') to list''))
      | _ \<Rightarrow>
          (case as_num a of
             None \<Rightarrow> Inl (TypeError (''unsupported operand type(s) for +: '' @ quoted (type_name a) @
                                     '' and '' @ quoted ''int''))
           | Some (NInt i) \<Rightarrow> Inr (NInt (i + n))
           | Some (NFloat x) \<Rightarrow>
               (case to_float fo (NInt n) of Inl e \<Rightarrow> Inl e | Inr y \<Rightarrow> Inr (NFloat (f_add fo x y)))))"

text \<open>\<open>x * b\<close> for a float \<open>x\<close>.\<close>

definition float_mul :: "'f float_ops \<Rightarrow> 'f \<Rightarrow> 'f pyval \<Rightarrow> error + 'f" where
  "float_mul fo x b =
     (case b of
        PStr _ \<Rightarrow> Inl (TypeError (''can'' @ [CHR 0x27] @ ''t multiply sequence by non-int of type '' @
                                  quoted ''float''))
      | PList _ \<Rightarrow> Inl (TypeError (''can'' @ [CHR 0x27] @ ''t multiply sequence by non-int of type '' @
                                   quoted ''float''))
      | _ \<Rightarrow>
          (case as_num b of
             None \<Rightarrow> Inl (TypeError (''unsupported operand type(s) for *: '' @ quoted ''float'' @
                                     '' and '' @ quoted (type_name b)))
           | Some n \<Rightarrow> (case to_float fo n of Inl e \<Rightarrow> Inl e | Inr y \<Rightarrow> Inr (f_mul fo x y))))"

fun num_lt :: "'f float_ops \<Rightarrow> 'f num \<Rightarrow> 'f num \<Rightarrow> bool" where
  "num_lt fo (NInt a) (NInt b) = (a < b)"
| "num_lt fo (NFloat x) (NFloat y) = f_lt fo x y"
| "num_lt fo (NInt a) (NFloat y) = int_lt_f fo a y"
| "num_lt fo (NFloat x) (NInt b) = f_lt_int fo x b"

fun num_le :: "'f float_ops \<Rightarrow> 'f num \<Rightarrow> 'f num \<Rightarrow> bool" where
  "num_le fo (NInt a) (NInt b) = (a \<le> b)"
| "num_le fo (NFloat x) (NFloat y) = f_le fo x y"
| "num_le fo (NInt a) (NFloat y) = int_le_f fo a y"
| "num_le fo (NFloat x) (NInt b) = f_le_int fo x b"

definition cmp_error :: "string \<Rightarrow> 'f pyval \<Rightarrow> 'f pyval \<Rightarrow> error" where
  "cmp_error opr a b =
     TypeError (quoted opr @ '' not supported between instances of '' @ quoted (type_name a) @
                '' and '' @ quoted (type_name b))"

text \<open>\<open>a > y\<close> and \<open>x >= b\<close>, where \<open>y\<close> and \<open>x\<close> are numbers and the other side is any value.\<close>

definition gt_num :: "'f float_ops \<Rightarrow> 'f pyval \<Rightarrow> 'f num \<Rightarrow> error + bool" where
  "gt_num fo a y =
     (case as_num a of
        None \<Rightarrow> Inl (cmp_error ''>'' a (num_val y))
      | Some x \<Rightarrow> Inr (num_lt fo y x))"

definition num_ge :: "'f float_ops \<Rightarrow> 'f num \<Rightarrow> 'f pyval \<Rightarrow> error + bool" where
  "num_ge fo x b =
     (case as_num b of
        None \<Rightarrow> Inl (cmp_error ''>='' (num_val x) b)
      | Some y \<Rightarrow> Inr (num_le fo y x))"

text \<open>\<open>v.get(k, dflt)\<close>: only a dictionary has the method.\<close>

definition get_method :: "'f pyval \<Rightarrow> string \<Rightarrow> 'f pyval \<Rightarrow> error + 'f pyval" where
  "get_method v k dflt =
     (case v of
        PDict d \<Rightarrow> Inr (dict_get d k dflt)
      | _ \<Rightarrow> Inl (AttributeError (quoted (type_name v) @ '' object has no attribute '' @ quoted ''get'')))"

definition digit_char :: "nat \<Rightarrow> char" where
  "digit_char n = ''0123456789'' ! (n mod 10)"

function nat_str :: "nat \<Rightarrow> string" where
  "nat_str n = (if n < 10 then [digit_char n] else nat_str (n div 10) @ [digit_char n])"
  by pat_completeness auto
termination
  by (relation "measure id") auto

definition int_str :: "int \<Rightarrow> string" where
  "int_str i = (if i < 0 then CHR ''-'' # nat_str (nat (- i)) else nat_str (nat i))"

fun num_str :: "'f float_ops \<Rightarrow> 'f num \<Rightarrow> string" where
  "num_str fo (NInt i) = int_str i"
| "num_str fo (NFloat x) = f_str fo x"

subsection \<open>suggest_improvements\<close>

text \<open>
  The state returned is a value: the list under \<open>suggestions\<close> with the new suggestions
  appended. (The source extends the list object in place, so a state handed out earlier
  that holds the same list object shows the longer list too; the state this node returns
  is the same either way.)
\<close>

definition suggest_improvements :: "'f float_ops \<Rightarrow> ('f, 'c) node_callable" where
  "suggest_improvements fo st tls =
     (let complexity = dict_get st ''complexity_score'' (PInt 0)
      in case gt_num fo complexity (NFloat (f_dec fo 7 1)) of
           Inl e \<Rightarrow> Inl e
         | Inr c1 \<Rightarrow>
        let suggestions1 = (if c1 then [''Reduce branching or split large functions.''] else [])
        in case get_method (dict_get st ''issues'' (PDict [])) ''issues'' (PInt 0) of
           Inl e \<Rightarrow> Inl e
         | Inr issues_count \<Rightarrow>
        (case gt_num fo issues_count (NInt 0) of
           Inl e \<Rightarrow> Inl e
         | Inr c2 \<Rightarrow>
        let suggestions2 = suggestions1 @ (if c2 then [''Address flagged code smells.''] else []);
            suggestions = (if suggestions2 = [] then [''Looks good, minor refactors only.'']
                           else suggestions2)
        in case dict_get st ''suggestions'' (PList []) of
             PList xs \<Rightarrow>
               Inr (RetNodeResult
                 \<lparr>state = AList.update ''suggestions'' (PList (xs @ map PStr suggestions)) st,
                  next_node = None,
                  log = Some (''Added '' @ nat_str (length suggestions) @ '' suggestions'')\<rparr>)
           | v \<Rightarrow> Inl (AttributeError (quoted (type_name v) @ '' object has no attribute '' @
                                       quoted ''extend''))))"

subsection \<open>check_quality\<close>

text \<open>
  \<open>round(max(0.0, 1.0 - (0.2 * issues_count) - (0.3 * complexity)), 2)\<close>, the value stored
  under \<open>quality_score\<close>.
\<close>

definition quality_score :: "'f float_ops \<Rightarrow> 'f pyval \<Rightarrow> 'f pyval \<Rightarrow> error + 'f" where
  "quality_score fo issues_count complexity =
     (case float_mul fo (f_dec fo 2 1) issues_count of
        Inl e \<Rightarrow> Inl e
      | Inr a \<Rightarrow>
          (case float_mul fo (f_dec fo 3 1) complexity of
             Inl e \<Rightarrow> Inl e
           | Inr b \<Rightarrow>
               let d = f_sub fo (f_sub fo (f_dec fo 10 1) a) b;
                   score = (if f_lt fo (f_dec fo 0 1) d then d else f_dec fo 0 1)
               in Inr (f_round fo score 2)))"

definition check_quality :: "'f float_ops \<Rightarrow> ('f, 'c) node_callable" where
  "check_quality fo st tls =
     (let threshold = dict_get st ''quality_threshold'' (PFloat (f_dec fo 7 1));
          max_loops = dict_get st ''max_iterations'' (PInt 3)
      in case add_int fo (dict_get st ''iterations'' (PInt 0)) 1 of
           Inl e \<Rightarrow> Inl e
         | Inr iterations \<Rightarrow>
        (case get_method (dict_get st ''issues'' (PDict [])) ''issues'' (PInt 0) of
           Inl e \<Rightarrow> Inl e
         | Inr issues_count \<Rightarrow>
        (case quality_score fo issues_count (dict_get st ''complexity_score'' (PInt 0)) of
           Inl e \<Rightarrow> Inl e
         | Inr q \<Rightarrow>
        let new_state = AList.update ''iterations'' (num_val iterations)
                          (AList.update ''quality_score'' (PFloat q) st);
            lg = ''Quality score '' @ f_str fo q @ '' (iteration '' @ num_str fo iterations @ '')'';
            stop = Inr (RetNodeResult \<lparr>state = new_state, next_node = None,
                                       log = Some (lg @ '' -> stop'')\<rparr>);
            continue = Inr (RetNodeResult \<lparr>state = new_state,
                                           next_node = Some ''suggest_improvements'',
                                           log = Some (lg @ '' -> continue'')\<rparr>)
        in case num_ge fo (NFloat q) threshold of
             Inl e \<Rightarrow> Inl e
           | Inr reached \<Rightarrow>
               if reached then stop
               else (case num_ge fo iterations max_loops of
                       Inl e \<Rightarrow> Inl e
                     | Inr capped \<Rightarrow> if capped then stop else continue))))"

text \<open>
  A stand-in for the float operations, for the examples only: numbers in thousandths, as
  integers.
\<close>

definition thousandths :: "int float_ops" where
  "thousandths =
     \<lparr>f_dec = (\<lambda>m k. (m * 1000) div (10 ^ k)),
      f_of_int = (\<lambda>i. Some (i * 1000)),
      f_add = (\<lambda>x y. x + y),
      f_sub = (\<lambda>x y. x - y),
      f_mul = (\<lambda>x y. (x * y) div 1000),
      f_lt = (\<lambda>x y. x < y),
      f_le = (\<lambda>x y. x \<le> y),
      f_lt_int = (\<lambda>x i. x < i * 1000),
      f_le_int = (\<lambda>x i. x \<le> i * 1000),
      int_lt_f = (\<lambda>i y. i * 1000 < y),
      int_le_f = (\<lambda>i y. i * 1000 \<le> y),
      f_round = (\<lambda>x n. x),
      f_str = (\<lambda>x. int_str (x div 1000) @ ''.'' @ nat_str (nat (x mod 1000)))\<rparr>"

definition quality_graph :: "(int, unit) value_graph" where
  "quality_graph =
     \<lparr>graph_id = ''q1'',
      nodes = [(''suggest_improvements'', suggest_improvements thousandths),
               (''check_quality'', check_quality thousandths)],
      edges = [(''suggest_improvements'', [''check_quality'']), (''check_quality'', [])],
      start_node = ''suggest_improvements'', description = None\<rparr>"

definition quality_engine :: "(int, unit) value_engine" where
  "quality_engine =
     \<lparr>graphs = [(''q1'', quality_graph)], runs = [],
      node_library = [(''suggest_improvements'', suggest_improvements thousandths),
                      (''check_quality'', check_quality thousandths)],
      tool_registry = \<lparr>tools = []\<rparr>\<rparr>"

text \<open>
  What the quality loop keeps true from pass to pass while the score stays below the
  threshold: \<open>iterations\<close> is the integer \<open>k\<close> (0 when absent), \<open>max_iterations\<close> is \<open>n\<close>, the
  entry under \<open>suggestions\<close> is a list or absent, and the score computed from the state is
  compared with the threshold and found below it.
\<close>

definition gate_invariant :: "'f float_ops \<Rightarrow> int \<Rightarrow> int \<Rightarrow> 'f state \<Rightarrow> bool" where
  "gate_invariant fo n k st \<longleftrightarrow>
     dict_get st ''iterations'' (PInt 0) = PInt k \<and>
     dict_get st ''max_iterations'' (PInt 3) = PInt n \<and>
     (\<exists>xs. dict_get st ''suggestions'' (PList []) = PList xs) \<and>
     (\<exists>ic q. get_method (dict_get st ''issues'' (PDict [])) ''issues'' (PInt 0) = Inr ic \<and>
        quality_score fo ic (dict_get st ''complexity_score'' (PInt 0)) = Inr q \<and>
        num_ge fo (NFloat q) (dict_get st ''quality_threshold'' (PFloat (f_dec fo 7 1))) = Inr False)"

section \<open>Facts about the loop and the run record\<close>

lemma reaches_execute_loop:
  "reaches g tr c c' \<Longrightarrow>
   execute_loop g tr (fst c) (fst (snd c)) (snd (snd c)) =
   execute_loop g tr (fst c') (fst (snd c')) (snd (snd c'))"
proof (induction rule: reaches.induct)
  case (reaches_start c)
  show ?case by simp
next
  case (reaches_pass c n st lg c')
  have "execute_loop g tr (Some n) st lg = execute_loop g tr (fst c') (fst (snd c')) (snd (snd c'))"
    using reaches_pass.hyps(2,3) by (subst execute_loop.simps) (simp split: prod.splits)
  with reaches_pass.IH show ?case by simp
qed

lemma map_of_update_same: "map_of (AList.update k v al) k = Some v"
  by (simp add: update_conv')

lemma run_graph_failed:
  assumes "map_of (graphs eng) gid = Some g"
    and "execute g (tool_registry eng) init = Some (Inl e)"
  shows "run_graph eng rid gid init =
     Some (Inl e, eng\<lparr>runs := AList.update rid
        ((new_run rid gid init)\<lparr>status := ''failed'', error := Some (exc_str e)\<rparr>) (runs eng)\<rparr>)"
  using assms by (simp add: run_graph_def Let_def)

lemma run_graph_completed:
  assumes "map_of (graphs eng) gid = Some g"
    and "execute g (tool_registry eng) init = Some (Inr (final, lgs))"
  shows "run_graph eng rid gid init =
     Some (Inr ((new_run rid gid init)\<lparr>status := ''completed'', current_state := final, logs := lgs, current_node := None\<rparr>),
       eng\<lparr>runs := AList.update rid
        ((new_run rid gid init)\<lparr>status := ''completed'', current_state := final, logs := lgs, current_node := None\<rparr>) (runs eng)\<rparr>)"
  using assms by (simp add: run_graph_def Let_def)

lemma get_run_update: "get_run (eng\<lparr>runs := AList.update rid r rs\<rparr>) rid = Inr r"
  by (simp add: get_run_def update_conv')

lemma reaches_execute:
  assumes "reaches g tr (Some (start_node g), init, []) (cur, st, lg)"
  shows "execute g tr init = execute_loop g tr cur st lg"
  using reaches_execute_loop [OF assms] by (simp add: execute_def)

lemma execute_loop_raises:
  assumes "n \<noteq> []" and "execute_step g tr n st lg = Inl e"
  shows "execute_loop g tr (Some n) st lg = Some (Inl e)"
  using assms by (subst execute_loop.simps) simp

lemma execute_loop_pass:
  assumes "n \<noteq> []" and "execute_step g tr n st lg = Inr (cur', st', lg')"
  shows "execute_loop g tr (Some n) st lg = execute_loop g tr cur' st' lg'"
  using assms by (subst execute_loop.simps) simp

lemma execute_loop_stop:
  "execute_loop g tr None st lg = Some (Inr (st, lg))"
  "execute_loop g tr (Some []) st lg = Some (Inr (st, lg))"
  by (subst execute_loop.simps, simp)+

lemma execute_step_ambiguous:
  assumes "map_of (nodes g) cur = Some fn"
    and "run_node tr fn st = Inr r"
    and "next_node r = None"
    and "map_of (edges g) cur = Some cands"
    and "1 < length cands"
  shows "execute_step g tr cur st lg = Inl (ValueError (multiple_edges_msg cur))"
  using assms by (simp add: execute_step_def dict_get_def Let_def)

lemma execute_step_raises:
  assumes "map_of (nodes g) cur = Some fn" and "run_node tr fn st = Inl e"
  shows "execute_step g tr cur st lg = Inl e"
  using assms by (simp add: execute_step_def dict_get_def)

lemma execute_step_override:
  assumes "map_of (nodes g) cur = Some fn"
    and "run_node tr fn st = Inr r"
    and "next_node r = Some n"
  shows "execute_step g tr cur st lg =
     Inr (Some n, state r, lg @ [\<lparr>node = cur, entry_log = log r, state_snapshot = state r\<rparr>])"
  using assms by (simp add: execute_step_def dict_get_def Let_def)

subsection \<open>Registration\<close>

lemma in_list_nodes: "n \<in> set (list_nodes eng) \<longleftrightarrow> map_of (node_library eng) n \<noteq> None"
  by (simp add: list_nodes_def dict_keys_def map_of_eq_None_iff)

lemma build_node_map_unknown:
  "\<exists>n\<in>set ns. map_of lib n = None \<Longrightarrow>
   \<exists>n\<in>set ns. map_of lib n = None \<and>
     build_node_map lib ns nm = Inl (ValueError (unknown_node_msg n (sort (dict_keys lib))))"
proof (induction ns arbitrary: nm)
  case Nil
  then show ?case by simp
next
  case (Cons a ns)
  show ?case
  proof (cases "map_of lib a")
    case None
    then show ?thesis by auto
  next
    case (Some fn)
    with Cons.prems have "\<exists>n\<in>set ns. map_of lib n = None" by auto
    from Cons.IH [OF this, of "AList.update a fn nm"] Some show ?thesis by auto
  qed
qed

lemma build_node_map_known:
  "\<forall>n\<in>set ns. map_of lib n \<noteq> None \<Longrightarrow>
   \<exists>nm'. build_node_map lib ns nm = Inr nm' \<and>
     (\<forall>k. map_of nm' k = (if k \<in> set ns then map_of lib k else map_of nm k))"
proof (induction ns arbitrary: nm)
  case Nil
  then show ?case by simp
next
  case (Cons a ns)
  then obtain fn where fn: "map_of lib a = Some fn" by auto
  from Cons.prems have "\<forall>n\<in>set ns. map_of lib n \<noteq> None" by simp
  from Cons.IH [OF this, of "AList.update a fn nm"] fn show ?case
    by (auto simp: update_conv')
qed

lemma build_node_map_Inr:
  "build_node_map lib ns nm = Inr nm' \<Longrightarrow>
   (\<forall>n\<in>set ns. map_of lib n \<noteq> None) \<and>
   (\<forall>k. map_of nm' k = (if k \<in> set ns then map_of lib k else map_of nm k))"
proof (induction ns arbitrary: nm)
  case Nil
  then show ?case by simp
next
  case (Cons a ns)
  then obtain fn where fn: "map_of lib a = Some fn"
    by (cases "map_of lib a") auto
  with Cons.prems have "build_node_map lib ns (AList.update a fn nm) = Inr nm'" by simp
  from Cons.IH [OF this] fn show ?case by (auto simp: update_conv')
qed

lemma register_graph_single_name:
  "register_graph eng gid ns (es1 @ (a, EName b) # es2) start d =
   register_graph eng gid ns (es1 @ (a, EList [b]) # es2) start d"
  by (simp add: register_graph_def split: sum.split)

lemma execute_loop_unknown_node:
  assumes "n \<noteq> []" and "map_of (nodes g) n = None"
  shows "execute_loop g tr (Some n) st lg = Some (Inl (KeyError n))"
  by (rule execute_loop_raises [OF assms(1)]) (simp add: execute_step_def assms(2))

lemma execute_step_single_edge:
  assumes "map_of (nodes g) cur = Some fn"
    and "run_node tr fn st = Inr r"
    and "next_node r = None"
    and "map_of (edges g) cur = Some [b]"
  shows "execute_step g tr cur st lg =
     Inr (Some b, state r, lg @ [\<lparr>node = cur, entry_log = log r, state_snapshot = state r\<rparr>])"
  using assms by (simp add: execute_step_def dict_get_def Let_def)

subsection \<open>The store and the runs on it\<close>

lemma unchanged_refl: "unchanged h h"
  by (simp add: unchanged_def)

lemma unchanged_trans: "unchanged h1 h2 \<Longrightarrow> unchanged h2 h3 \<Longrightarrow> unchanged h1 h3"
  by (auto simp: unchanged_def)

lemma unchanged_new_dict: "unchanged h (snd (new_dict h d))"
  by (simp add: unchanged_def new_dict_def)

lemma unchanged_new_list: "unchanged h (snd (new_list h xs))"
  by (simp add: unchanged_def new_list_def)

lemma unchanged_copy_dict: "unchanged h (snd (copy_dict h a))"
  by (simp add: copy_dict_def unchanged_new_dict)

lemma copy_dict_result:
  "copy_dict h a = (c, h1) \<Longrightarrow>
   c = next_dict h \<and> next_dict h1 = Suc (next_dict h) \<and> next_list h1 = next_list h \<and>
   dicts h1 c = dicts h a \<and> lists h1 = lists h \<and> unchanged h h1"
  using unchanged_copy_dict [of h a] by (auto simp: copy_dict_def new_dict_def)

lemma run_node_ref_heap: "snd (run_node_ref tr f s h) = snd (f s tr h)"
  by (auto simp: run_node_ref_def split: prod.splits sum.splits ref_result.splits val.splits)

lemma execute_step_ref_unchanged:
  assumes "pure_graph tr g"
  shows "unchanged h (snd (execute_step_ref g tr cur s lg h))"
proof (cases "map_of (nodes g) cur")
  case None
  then show ?thesis by (simp add: execute_step_ref_def unchanged_refl)
next
  case (Some f)
  with assms have "unchanged h (snd (f s tr h))" by (auto simp: pure_graph_def)
  then have "unchanged h (snd (run_node_ref tr f s h))" by (simp add: run_node_ref_heap)
  with Some show ?thesis
    by (auto simp: execute_step_ref_def Let_def split: prod.splits sum.splits option.splits)
qed

lemma execute_loop_ref_unchanged:
  assumes "pure_graph tr g"
    and "execute_loop_ref g tr cur s lg h = Some (r, h')"
  shows "unchanged h h'"
proof -
  have "pure_graph tr g \<longrightarrow> unchanged h (snd (r, h'))"
  proof (rule execute_loop_ref.raw_induct
      [where P = "\<lambda>g tr cur s lg h y. pure_graph tr g \<longrightarrow> unchanged h (snd y)", OF _ assms(2)],
      goal_cases)
    case (1 loop g tr cur s lg h y)
    note IH = 1(1) and eq = 1(2)
    show ?case
    proof
      assume p: "pure_graph tr g"
      show "unchanged h (snd y)"
      proof (cases cur)
        case None
        with eq show ?thesis by (auto simp: unchanged_refl)
      next
        case (Some n)
        show ?thesis
        proof (cases "n = []")
          case True
          with Some eq show ?thesis by (auto simp: unchanged_refl)
        next
          case False
          obtain x h1 where st: "execute_step_ref g tr n s lg h = (x, h1)"
            by (cases "execute_step_ref g tr n s lg h")
          with execute_step_ref_unchanged [OF p, of h n s lg] have u: "unchanged h h1" by simp
          show ?thesis
          proof (cases x)
            case (Inl e)
            with Some False st eq u show ?thesis by auto
          next
            case (Inr c)
            obtain cur' s' lg' where c: "c = (cur', s', lg')" by (cases c)
            with Inr Some False st eq have "loop g tr cur' s' lg' h1 = Some y" by simp
            from IH [OF this] p have "unchanged h1 (snd y)" by simp
            with u show ?thesis by (rule unchanged_trans)
          qed
        qed
      qed
    qed
  qed
  with assms(1) show ?thesis by simp
qed

lemma execute_loop_ref_raises:
  assumes "n \<noteq> []" and "execute_step_ref g tr n s lg h = (Inl e, h')"
  shows "execute_loop_ref g tr (Some n) s lg h = Some (Inl e, h')"
  using assms by (subst execute_loop_ref.simps) simp



lemma run_graph_ref_failed:
  assumes "map_of (graphs eng) gid = Some g"
    and "execute_ref g (tool_registry eng) init (snd (copy_dict h init)) = Some (Inl e, h')"
  shows "run_graph_ref eng rid gid init h =
     Some ((Inl e, eng\<lparr>runs := AList.update rid
        ((new_run rid gid (fst (copy_dict h init)))\<lparr>status := ''failed'', error := Some (exc_str e)\<rparr>)
        (runs eng)\<rparr>), h')"
  using assms by (cases "copy_dict h init") (simp add: run_graph_ref_def Let_def)


lemma run_graph_ref_Inl:
  assumes "map_of (graphs eng) gid = Some g"
    and "run_graph_ref eng rid gid init h = Some ((Inl e, eng'), h')"
  shows "execute_ref g (tool_registry eng) init (snd (copy_dict h init)) = Some (Inl e, h')"
  using assms
  by (cases "copy_dict h init")
    (auto simp: run_graph_ref_def Let_def split: prod.splits option.splits sum.splits)


lemma unchanged_dicts: "unchanged h h' \<Longrightarrow> a < next_dict h \<Longrightarrow> dicts h' a = dicts h a"
  by (simp add: unchanged_def)





lemma fresh_visit_node_unchanged: "unchanged h (snd (fresh_visit_node name s tr h))"
  by (simp add: unchanged_def fresh_visit_node_def copy_dict_def new_dict_def new_list_def
      set_item_def)


lemma execute_ref_unchanged:
  assumes "pure_graph tr g" and "execute_ref g tr s h = Some (r, h')"
  shows "unchanged h h'"
proof -
  obtain c h1 where c: "copy_dict h s = (c, h1)" by (cases "copy_dict h s")
  with assms(2) have "execute_loop_ref g tr (Some (start_node g)) c [] h1 = Some (r, h')"
    by (simp add: execute_ref_def)
  from execute_loop_ref_unchanged [OF assms(1) this] copy_dict_result [OF c]
  show ?thesis by (blast intro: unchanged_trans)
qed

lemma fresh_ambiguous_graph_pure: "pure_graph tr fresh_ambiguous_graph"
  by (auto simp: pure_graph_def fresh_ambiguous_graph_def fresh_visit_node_unchanged
      split: if_splits)

lemma fresh_ambiguous_run:
  "map_option (\<lambda>x. fst (fst x)) (run_graph_ref (ref_engine_with fresh_ambiguous_graph) ''r1'' ''g'' 0 heap0) =
     Some (Inl (ValueError (multiple_edges_msg ''B'')))"
  by code_simp

subsection \<open>The quality loop\<close>

lemma dict_get_update:
  "dict_get (AList.update k v d) k' dflt = (if k' = k then v else dict_get d k' dflt)"
  by (simp add: dict_get_def update_conv')

lemma float_mul_num: "float_mul fo x b = Inr y \<Longrightarrow> \<exists>n. as_num b = Some n"
  by (cases b) (auto simp: float_mul_def split: option.splits)

lemma quality_score_num:
  assumes "quality_score fo ic cx = Inr q"
  shows "\<exists>n m. as_num ic = Some n \<and> as_num cx = Some m"
proof -
  from assms obtain a b where "float_mul fo (f_dec fo 2 1) ic = Inr a"
    and "float_mul fo (f_dec fo 3 1) cx = Inr b"
    by (auto simp: quality_score_def split: sum.splits)
  then show ?thesis by (blast dest: float_mul_num)
qed

lemma suggest_improvements_returns:
  assumes "get_method (dict_get st ''issues'' (PDict [])) ''issues'' (PInt 0) = Inr ic"
    and "quality_score fo ic (dict_get st ''complexity_score'' (PInt 0)) = Inr q"
    and "dict_get st ''suggestions'' (PList []) = PList xs"
  shows "\<exists>sg l. suggest_improvements fo st tls =
           Inr (RetNodeResult \<lparr>state = AList.update ''suggestions'' (PList (xs @ sg)) st,
                               next_node = None, log = Some l\<rparr>)"
proof -
  from quality_score_num [OF assms(2)] obtain n m
    where "as_num ic = Some n" "as_num (dict_get st ''complexity_score'' (PInt 0)) = Some m"
    by blast
  with assms(1,3) show ?thesis
    by (auto simp: suggest_improvements_def gt_num_def Let_def)
qed

lemma check_quality_returns:
  assumes "dict_get st ''iterations'' (PInt 0) = PInt k"
    and "dict_get st ''max_iterations'' (PInt 3) = PInt n"
    and "get_method (dict_get st ''issues'' (PDict [])) ''issues'' (PInt 0) = Inr ic"
    and "quality_score fo ic (dict_get st ''complexity_score'' (PInt 0)) = Inr q"
    and "num_ge fo (NFloat q) (dict_get st ''quality_threshold'' (PFloat (f_dec fo 7 1))) = Inr False"
  shows "\<exists>l. check_quality fo st tls =
           Inr (RetNodeResult
             \<lparr>state = AList.update ''iterations'' (PInt (k + 1))
                        (AList.update ''quality_score'' (PFloat q) st),
              next_node = (if n \<le> k + 1 then None else Some ''suggest_improvements''),
              log = Some l\<rparr>)"
  using assms by (simp add: check_quality_def add_int_def num_ge_def Let_def)

lemma gate_suggest_pass:
  assumes "map_of (nodes g) ''suggest_improvements'' = Some (suggest_improvements fo)"
    and "map_of (edges g) ''suggest_improvements'' = Some [''check_quality'']"
    and "gate_invariant fo n k st"
  shows "\<exists>st' e. execute_step g tr ''suggest_improvements'' st lg =
             Inr (Some ''check_quality'', st', lg @ [e]) \<and>
           node e = ''suggest_improvements'' \<and> gate_invariant fo n k st'"
proof -
  from assms(3) obtain xs ic q
    where xs: "dict_get st ''suggestions'' (PList []) = PList xs"
      and ic: "get_method (dict_get st ''issues'' (PDict [])) ''issues'' (PInt 0) = Inr ic"
      and q: "quality_score fo ic (dict_get st ''complexity_score'' (PInt 0)) = Inr q"
    by (auto simp: gate_invariant_def)
  from suggest_improvements_returns [OF ic q xs, of tr] obtain sg l
    where r: "suggest_improvements fo st tr =
      Inr (RetNodeResult \<lparr>state = AList.update ''suggestions'' (PList (xs @ sg)) st,
                          next_node = None, log = Some l\<rparr>)"
    by blast
  let ?st' = "AList.update ''suggestions'' (PList (xs @ sg)) st"
  let ?e = "\<lparr>node = ''suggest_improvements'', entry_log = Some l, state_snapshot = ?st'\<rparr>"
  have "execute_step g tr ''suggest_improvements'' st lg = Inr (Some ''check_quality'', ?st', lg @ [?e])"
    using assms(1,2) r by (simp add: execute_step_def run_node_def dict_get_def)
  moreover have "gate_invariant fo n k ?st'"
    using assms(3) by (simp add: gate_invariant_def dict_get_update)
  ultimately show ?thesis by auto
qed

lemma gate_check_pass:
  assumes "map_of (nodes g) ''check_quality'' = Some (check_quality fo)"
    and "dict_get (edges g) ''check_quality'' [] = []"
    and "gate_invariant fo n k st"
  shows "\<exists>st' e. execute_step g tr ''check_quality'' st lg =
             Inr (if n \<le> k + 1 then None else Some ''suggest_improvements'', st', lg @ [e]) \<and>
           node e = ''check_quality'' \<and> gate_invariant fo n (k + 1) st'"
proof -
  from assms(3) obtain ic q
    where k: "dict_get st ''iterations'' (PInt 0) = PInt k"
      and n: "dict_get st ''max_iterations'' (PInt 3) = PInt n"
      and ic: "get_method (dict_get st ''issues'' (PDict [])) ''issues'' (PInt 0) = Inr ic"
      and q: "quality_score fo ic (dict_get st ''complexity_score'' (PInt 0)) = Inr q"
      and c: "num_ge fo (NFloat q) (dict_get st ''quality_threshold'' (PFloat (f_dec fo 7 1))) = Inr False"
    by (auto simp: gate_invariant_def)
  from check_quality_returns [OF k n ic q c, of tr] obtain l
    where r: "check_quality fo st tr =
      Inr (RetNodeResult
             \<lparr>state = AList.update ''iterations'' (PInt (k + 1))
                        (AList.update ''quality_score'' (PFloat q) st),
              next_node = (if n \<le> k + 1 then None else Some ''suggest_improvements''),
              log = Some l\<rparr>)"
    by blast
  let ?st' = "AList.update ''iterations'' (PInt (k + 1)) (AList.update ''quality_score'' (PFloat q) st)"
  let ?e = "\<lparr>node = ''check_quality'', entry_log = Some l, state_snapshot = ?st'\<rparr>"
  have "execute_step g tr ''check_quality'' st lg =
      Inr (if n \<le> k + 1 then None else Some ''suggest_improvements'', ?st', lg @ [?e])"
    using assms(1,2) r by (simp add: execute_step_def run_node_def)
  moreover have "gate_invariant fo n (k + 1) ?st'"
    using assms(3) by (simp add: gate_invariant_def dict_get_update)
  ultimately show ?thesis by auto
qed

lemma gate_loop_from_check:
  assumes "map_of (nodes g) ''suggest_improvements'' = Some (suggest_improvements fo)"
    and "map_of (nodes g) ''check_quality'' = Some (check_quality fo)"
    and "map_of (edges g) ''suggest_improvements'' = Some [''check_quality'']"
    and "dict_get (edges g) ''check_quality'' [] = []"
  shows "gate_invariant fo n k st \<Longrightarrow> k < n \<Longrightarrow> m = nat (n - k - 1) \<Longrightarrow>
    \<exists>final new. execute_loop g tr (Some ''check_quality'') st lg = Some (Inr (final, lg @ new)) \<and>
       length (filter (\<lambda>e. node e = ''check_quality'') new) = nat (n - k) \<and>
       dict_get final ''iterations'' (PInt 0) = PInt n"
proof (induction m arbitrary: k st lg)
  case 0
  then have last: "n \<le> k + 1" by simp
  from gate_check_pass [OF assms(2,4) "0.prems"(1), of tr lg] last obtain st' e
    where p: "execute_step g tr ''check_quality'' st lg = Inr (None, st', lg @ [e])"
      and e: "node e = ''check_quality''" and i: "gate_invariant fo n (k + 1) st'"
    by auto
  have "execute_loop g tr (Some ''check_quality'') st lg = execute_loop g tr None st' (lg @ [e])"
    by (rule execute_loop_pass [OF _ p]) simp
  then have "execute_loop g tr (Some ''check_quality'') st lg = Some (Inr (st', lg @ [e]))"
    by (simp add: execute_loop_stop)
  moreover from last "0.prems"(2) have "k + 1 = n" "nat (n - k) = 1" by simp_all
  ultimately show ?case using e i by (auto simp: gate_invariant_def)
next
  case (Suc m)
  then have more: "\<not> n \<le> k + 1" by simp
  from gate_check_pass [OF assms(2,4) Suc.prems(1), of tr lg] more obtain st1 e1
    where p1: "execute_step g tr ''check_quality'' st lg =
        Inr (Some ''suggest_improvements'', st1, lg @ [e1])"
      and e1: "node e1 = ''check_quality''" and i1: "gate_invariant fo n (k + 1) st1"
    by auto
  from gate_suggest_pass [OF assms(1,3) i1, of tr "lg @ [e1]"] obtain st2 e2
    where p2: "execute_step g tr ''suggest_improvements'' st1 (lg @ [e1]) =
        Inr (Some ''check_quality'', st2, (lg @ [e1]) @ [e2])"
      and e2: "node e2 = ''suggest_improvements''" and i2: "gate_invariant fo n (k + 1) st2"
    by auto
  from Suc.prems have "k + 1 < n" "m = nat (n - (k + 1) - 1)" by simp_all
  from Suc.IH [OF i2 this, of "(lg @ [e1]) @ [e2]"] obtain final new
    where l: "execute_loop g tr (Some ''check_quality'') st2 ((lg @ [e1]) @ [e2]) =
        Some (Inr (final, ((lg @ [e1]) @ [e2]) @ new))"
      and c: "length (filter (\<lambda>e. node e = ''check_quality'') new) = nat (n - (k + 1))"
      and f: "dict_get final ''iterations'' (PInt 0) = PInt n"
    by blast
  have "execute_loop g tr (Some ''check_quality'') st lg =
      execute_loop g tr (Some ''suggest_improvements'') st1 (lg @ [e1])"
    by (rule execute_loop_pass [OF _ p1]) simp
  also have "\<dots> = execute_loop g tr (Some ''check_quality'') st2 ((lg @ [e1]) @ [e2])"
    by (rule execute_loop_pass [OF _ p2]) simp
  finally have "execute_loop g tr (Some ''check_quality'') st lg =
      Some (Inr (final, lg @ ([e1, e2] @ new)))"
    using l by simp
  moreover have "length (filter (\<lambda>e. node e = ''check_quality'') ([e1, e2] @ new)) = nat (n - k)"
    using c e1 e2 Suc.prems(2) by simp
  ultimately show ?case using f by blast
qed

subsection \<open>The example graphs, run\<close>

lemma engine_with_graph: "map_of (graphs (engine_with g)) (graph_id g) = Some g"
  by (simp add: engine_with_def)

lemma engine_with_tools: "tool_registry (engine_with g) = \<lparr>tools = []\<rparr>"
  by (simp add: engine_with_def example_engine_def)

lemma run_visit_node:
  "run_node tr (visit_node name) st =
     Inr \<lparr>state = append_visited name st, next_node = None, log = None\<rparr>"
  by (simp add: run_node_def visit_node_def)

lemma ambiguous_graph_first_pass:
  "execute_step ambiguous_graph tr ''A'' [] [] =
     Inr (Some ''B'', [(''visited'', PList [PStr ''A''])],
          [\<lparr>node = ''A'', entry_log = None, state_snapshot = [(''visited'', PList [PStr ''A''])]\<rparr>])"
  by (simp add: execute_step_def dict_get_def ambiguous_graph_def run_visit_node append_visited_def)

lemma ambiguous_graph_second_pass:
  "execute_step ambiguous_graph tr ''B'' st lg = Inl (ValueError (multiple_edges_msg ''B''))"
  by (simp add: execute_step_def dict_get_def ambiguous_graph_def run_visit_node)

lemma ambiguous_graph_execute:
  "execute ambiguous_graph tr [] = Some (Inl (ValueError (multiple_edges_msg ''B'')))"
proof -
  have "execute ambiguous_graph tr [] = execute_loop ambiguous_graph tr (Some ''A'') [] []"
    by (simp add: execute_def ambiguous_graph_def)
  also have "\<dots> = execute_loop ambiguous_graph tr (Some ''B'') [(''visited'', PList [PStr ''A''])]
      [\<lparr>node = ''A'', entry_log = None, state_snapshot = [(''visited'', PList [PStr ''A''])]\<rparr>]"
    by (rule execute_loop_pass [OF _ ambiguous_graph_first_pass]) simp
  also have "\<dots> = Some (Inl (ValueError (multiple_edges_msg ''B'')))"
    by (rule execute_loop_raises [OF _ ambiguous_graph_second_pass]) simp
  finally show ?thesis .
qed

lemma int_graph_first_pass:
  "execute_step int_graph tr ''A'' [] [] =
     Inr (Some ''I'', [(''visited'', PList [PStr ''A''])],
          [\<lparr>node = ''A'', entry_log = None, state_snapshot = [(''visited'', PList [PStr ''A''])]\<rparr>])"
  by (simp add: execute_step_def dict_get_def int_graph_def run_visit_node append_visited_def)

section \<open>The claims\<close>




text \<open>
  C2, as the code has it. When the result of the node being executed carries a \<open>next_node\<close>
  that is not null, the pass ends with \<open>current_node\<close> set to that name whatever the static
  edges of the graph are: they are not consulted. If the name is not the empty string, the
  loop goes on with the pass for that node; if it is the empty string, the loop guard
  \<open>while current_node\<close> is false and the run ends there with the state and logs of this
  pass.
\<close>

theorem dynamic_override:
  assumes "map_of (nodes g) cur = Some fn"
    and "run_node tr fn st = Inr r"
    and "next_node r = Some n"
    and "cur \<noteq> []"
  shows "(\<forall>es. execute_step (g\<lparr>edges := es\<rparr>) tr cur st lg =
            Inr (Some n, state r,
                 lg @ [\<lparr>node = cur, entry_log = log r, state_snapshot = state r\<rparr>])) \<and>
         (n \<noteq> [] \<longrightarrow>
            execute_loop g tr (Some cur) st lg =
              (case execute_step g tr n (state r)
                      (lg @ [\<lparr>node = cur, entry_log = log r, state_snapshot = state r\<rparr>]) of
                 Inl e \<Rightarrow> Some (Inl e)
               | Inr (cur', st', lg') \<Rightarrow> execute_loop g tr cur' st' lg')) \<and>
         (n = [] \<longrightarrow>
            execute_loop g tr (Some cur) st lg =
              Some (Inr (state r,
                         lg @ [\<lparr>node = cur, entry_log = log r, state_snapshot = state r\<rparr>])))"
proof -
  let ?lg = "lg @ [\<lparr>node = cur, entry_log = log r, state_snapshot = state r\<rparr>]"
  have any: "execute_step (g\<lparr>edges := es\<rparr>) tr cur st lg = Inr (Some n, state r, ?lg)" for es
    using execute_step_override [of "g\<lparr>edges := es\<rparr>" cur fn tr st r n lg] assms(1-3) by simp
  from any [of "edges g"] have here: "execute_step g tr cur st lg = Inr (Some n, state r, ?lg)"
    by simp
  have loop: "execute_loop g tr (Some cur) st lg = execute_loop g tr (Some n) (state r) ?lg"
    by (rule execute_loop_pass [OF assms(4) here])
  have "n \<noteq> [] \<Longrightarrow> execute_loop g tr (Some n) (state r) ?lg =
      (case execute_step g tr n (state r) ?lg of
         Inl e \<Rightarrow> Some (Inl e)
       | Inr (cur', st', lg') \<Rightarrow> execute_loop g tr cur' st' lg')"
    by (subst execute_loop.simps) simp
  moreover have "n = [] \<Longrightarrow> execute_loop g tr (Some n) (state r) ?lg = Some (Inr (state r, ?lg))"
    by (simp add: execute_loop_stop)
  ultimately show ?thesis using any loop by simp
qed

theorem dynamic_override_witness:
  "map_of (nodes override_graph) ''R'' = Some (redirect_node ''R'' ''C'') \<and>
   map_of (edges override_graph) ''R'' = Some [''B''] \<and>
   run_node \<lparr>tools = []\<rparr> (redirect_node ''R'' ''C'') [] =
     Inr \<lparr>state = [(''visited'', PList [PStr ''R''])], next_node = Some ''C'', log = None\<rparr> \<and>
   execute_step override_graph \<lparr>tools = []\<rparr> ''R'' [] [] =
     Inr (Some ''C'', [(''visited'', PList [PStr ''R''])],
          [\<lparr>node = ''R'', entry_log = None, state_snapshot = [(''visited'', PList [PStr ''R''])]\<rparr>]) \<and>
   execute_loop override_graph \<lparr>tools = []\<rparr> (Some ''R'') [] [] =
     Some (Inr ([(''visited'', PList [PStr ''R'', PStr ''C''])],
          [\<lparr>node = ''R'', entry_log = None, state_snapshot = [(''visited'', PList [PStr ''R''])]\<rparr>,
           \<lparr>node = ''C'', entry_log = None,
            state_snapshot = [(''visited'', PList [PStr ''R'', PStr ''C''])]\<rparr>]))"
proof -
  let ?tr = "\<lparr>tools = []\<rparr> :: unit tool_registry"
  let ?r = "\<lparr>state = [(''visited'', PList [PStr ''R''])], next_node = Some ''C'', log = None\<rparr>
              :: unit state node_result"
  have n: "map_of (nodes override_graph) ''R'' = Some (redirect_node ''R'' ''C'')"
    and e: "map_of (edges override_graph) ''R'' = Some [''B'']"
    and o: "override_graph\<lparr>edges := edges override_graph\<rparr> = override_graph"
    by (simp_all add: override_graph_def)
  have rn: "run_node ?tr (redirect_node ''R'' ''C'') [] = Inr ?r"
    by (simp add: run_node_def redirect_node_def append_visited_def)
  have c: "execute_step override_graph ?tr ''C'' [(''visited'', PList [PStr ''R''])]
      [\<lparr>node = ''R'', entry_log = None, state_snapshot = [(''visited'', PList [PStr ''R''])]\<rparr>] =
      Inr (None, [(''visited'', PList [PStr ''R'', PStr ''C''])],
          [\<lparr>node = ''R'', entry_log = None, state_snapshot = [(''visited'', PList [PStr ''R''])]\<rparr>,
           \<lparr>node = ''C'', entry_log = None,
            state_snapshot = [(''visited'', PList [PStr ''R'', PStr ''C''])]\<rparr>])"
    by (simp add: execute_step_def dict_get_def override_graph_def run_visit_node append_visited_def)
  note t = dynamic_override [OF n rn, of "''C''" "[]"]
  from t [THEN conjunct1, THEN spec, of "edges override_graph"]
  have "execute_step override_graph ?tr ''R'' [] [] =
      Inr (Some ''C'', [(''visited'', PList [PStr ''R''])],
          [\<lparr>node = ''R'', entry_log = None, state_snapshot = [(''visited'', PList [PStr ''R''])]\<rparr>])"
    by (simp add: o)
  with t n e rn c o show ?thesis
    by (simp add: execute_loop_stop)
qed

text \<open>
  C2 as stated fails: node \<open>E\<close> returns \<open>next_node = ""\<close>, which is not null, and the graph has
  a node under the empty name; the run ends after \<open>E\<close> and the node named by \<open>next_node\<close> is
  never executed.
\<close>

theorem empty_next_node_counterexample:
  "map_of (nodes empty_target_graph) [] = Some (visit_node []) \<and>
   run_node \<lparr>tools = []\<rparr> (redirect_node ''E'' []) [] =
     Inr \<lparr>state = [(''visited'', PList [PStr ''E''])], next_node = Some [], log = None\<rparr> \<and>
   execute empty_target_graph \<lparr>tools = []\<rparr> [] =
     Some (Inr ([(''visited'', PList [PStr ''E''])],
          [\<lparr>node = ''E'', entry_log = None, state_snapshot = [(''visited'', PList [PStr ''E''])]\<rparr>]))"
proof -
  let ?tr = "\<lparr>tools = []\<rparr> :: unit tool_registry"
  let ?st = "[(''visited'', PList [PStr ''E''])] :: unit state"
  let ?lg = "[\<lparr>node = ''E'', entry_log = None, state_snapshot = ?st\<rparr>]"
  have rn: "run_node ?tr (redirect_node ''E'' []) [] =
      Inr \<lparr>state = ?st, next_node = Some [], log = None\<rparr>"
    by (simp add: run_node_def redirect_node_def append_visited_def)
  have p: "execute_step empty_target_graph ?tr ''E'' [] [] = Inr (Some [], ?st, ?lg)"
    by (simp add: execute_step_def dict_get_def empty_target_graph_def rn)
  have "execute empty_target_graph ?tr [] = execute_loop empty_target_graph ?tr (Some ''E'') [] []"
    by (simp add: execute_def empty_target_graph_def)
  also have "\<dots> = execute_loop empty_target_graph ?tr (Some []) ?st ?lg"
    by (rule execute_loop_pass [OF _ p]) simp
  finally show ?thesis
    by (simp add: execute_loop_stop rn empty_target_graph_def)
qed

text \<open>
  C3. In every run, when the loop is at a node that has more than one static outgoing edge
  and the node's result supplies no \<open>next_node\<close>, \<open>run_graph\<close> raises a \<open>ValueError\<close>
  whose message names the node and contains "has multiple edges but no next_node provided",
  and the run record read back by \<open>get_run\<close> has status \<open>failed\<close> and that message as
  its error.
\<close>

theorem ambiguous_edges_fail:
  assumes "map_of (graphs eng) gid = Some g"
    and "reaches g (tool_registry eng) (Some (start_node g), init, []) (Some cur, st, lg)"
    and "cur \<noteq> []"
    and "map_of (nodes g) cur = Some fn"
    and "run_node (tool_registry eng) fn st = Inr r"
    and "next_node r = None"
    and "map_of (edges g) cur = Some cands"
    and "1 < length cands"
  shows "\<exists>eng' R msg.
           run_graph eng rid gid init = Some (Inl (ValueError msg), eng') \<and>
           msg = ''Node '' @ [CHR 0x27] @ cur @ [CHR 0x27] @
                 '' has multiple edges but no next_node provided'' @ '' by the node logic'' \<and>
           get_run eng' rid = Inr R \<and> status R = ''failed'' \<and> error R = Some msg"
proof -
  have "execute_loop g (tool_registry eng) (Some cur) st lg =
          Some (Inl (ValueError (multiple_edges_msg cur)))"
    by (rule execute_loop_raises [OF assms(3) execute_step_ambiguous [OF assms(4-8)]])
  then have "execute g (tool_registry eng) init = Some (Inl (ValueError (multiple_edges_msg cur)))"
    using reaches_execute [OF assms(2)] by simp
  from run_graph_failed [OF assms(1) this, of rid]
  show ?thesis
    by (simp add: get_run_update new_run_def multiple_edges_msg_def)
qed

theorem ambiguous_edges_fail_witness:
  "map_of (graphs (engine_with ambiguous_graph)) ''g1'' = Some ambiguous_graph \<and>
   reaches ambiguous_graph (tool_registry (engine_with ambiguous_graph))
     (Some (start_node ambiguous_graph), [], [])
     (Some ''B'', [(''visited'', PList [PStr ''A''])],
      [\<lparr>node = ''A'', entry_log = None, state_snapshot = [(''visited'', PList [PStr ''A''])]\<rparr>]) \<and>
   map_of (edges ambiguous_graph) ''B'' = Some [''A'', ''C''] \<and>
   (\<exists>eng' R msg.
      run_graph (engine_with ambiguous_graph) ''r1'' ''g1'' [] = Some (Inl (ValueError msg), eng') \<and>
      msg = ''Node '' @ [CHR 0x27] @ ''B'' @ [CHR 0x27] @
            '' has multiple edges but no next_node provided'' @ '' by the node logic'' \<and>
      get_run eng' ''r1'' = Inr R \<and> status R = ''failed'' \<and> error R = Some msg)"
proof -
  let ?g = ambiguous_graph and ?tr = "tool_registry (engine_with ambiguous_graph)"
  let ?st = "[(''visited'', PList [PStr ''A''])] :: unit state"
  let ?lg = "[\<lparr>node = ''A'', entry_log = None, state_snapshot = ?st\<rparr>]"
  have g: "map_of (graphs (engine_with ambiguous_graph)) ''g1'' = Some ?g"
    by (simp add: engine_with_def ambiguous_graph_def)
  have "execute_step ?g ?tr ''A'' [] [] = Inr (Some ''B'', ?st, ?lg)"
    by (simp add: execute_step_def dict_get_def ambiguous_graph_def run_node_def visit_node_def
        append_visited_def)
  then have r: "reaches ?g ?tr (Some (start_node ?g), [], []) (Some ''B'', ?st, ?lg)"
    using reaches_pass [OF reaches_start, of "''A''" ?g ?tr "[]" "[]"]
    by (simp add: ambiguous_graph_def)
  have n: "map_of (nodes ?g) ''B'' = Some (visit_node ''B'')"
    by (simp add: ambiguous_graph_def)
  have e: "map_of (edges ?g) ''B'' = Some [''A'', ''C'']"
    by (simp add: ambiguous_graph_def)
  have rn: "run_node ?tr (visit_node ''B'') ?st =
      Inr \<lparr>state = append_visited ''B'' ?st, next_node = None, log = None\<rparr>"
    by (simp add: run_node_def visit_node_def)
  from ambiguous_edges_fail [OF g r _ n rn _ e, of "''r1''"] g r e
  show ?thesis by simp
qed

text \<open>
  C4, as the code has it. When a run of a registered graph fails during execution with an
  exception that \<open>run_graph\<close> catches, after any number of completed node steps, the
  status of the run record is \<open>failed\<close> and the error message is captured. Its
  \<open>current_state\<close> is the dictionary that \<open>dict(initial_state)\<close> created when the run
  began, a shallow copy with the bindings of the initial state, and its logs are empty: no
  state that a completed node returned is put into it. If no node of the graph changes an
  existing object, every object that existed when \<open>run_graph\<close> was called is unchanged at
  the failure, and that dictionary still has the bindings of the initial state.
\<close>

theorem failed_run_keeps_initial_copy:
  assumes "map_of (graphs eng) gid = Some g"
    and "run_graph_ref eng rid gid init h = Some ((Inl e, eng'), h')"
  shows "\<exists>R. get_run eng' rid = Inr R \<and> status R = ''failed'' \<and> error R = Some (exc_str e) \<and>
           logs R = [] \<and> current_state R = fst (copy_dict h init) \<and>
           dicts (snd (copy_dict h init)) (current_state R) = dicts h init \<and>
           (init < next_dict h \<and> pure_graph (tool_registry eng) g \<longrightarrow>
              unchanged h h' \<and> dicts h' (current_state R) = dicts h init)"
proof -
  obtain a0 h1 where c: "copy_dict h init = (a0, h1)" by (cases "copy_dict h init")
  note r = copy_dict_result [OF c]
  from run_graph_ref_Inl [OF assms] c
  have ex: "execute_ref g (tool_registry eng) init h1 = Some (Inl e, h')" by simp
  let ?R = "(new_run rid gid a0)\<lparr>status := ''failed'', error := Some (exc_str e)\<rparr>"
  from run_graph_ref_failed [OF assms(1), of init h e h' rid] ex c assms(2)
  have "eng' = eng\<lparr>runs := AList.update rid ?R (runs eng)\<rparr>" by simp
  then have R: "get_run eng' rid = Inr ?R" by (simp add: get_run_update)
  have pure: "unchanged h h' \<and> dicts h' a0 = dicts h init"
    if "init < next_dict h" and p: "pure_graph (tool_registry eng) g"
  proof -
    from execute_ref_unchanged [OF p ex] have u: "unchanged h1 h'" .
    from r have "a0 < next_dict h1" by simp
    from unchanged_dicts [OF u this] r have "dicts h' a0 = dicts h init" by auto
    moreover from r u have "unchanged h h'" by (blast intro: unchanged_trans)
    ultimately show ?thesis by simp
  qed
  from R r c pure show ?thesis by (auto simp: new_run_def)
qed

theorem failed_run_keeps_initial_copy_witness:
  "map_of (graphs (ref_engine_with fresh_ambiguous_graph)) ''g'' = Some fresh_ambiguous_graph \<and>
   (0::nat) < next_dict heap0 \<and>
   pure_graph (tool_registry (ref_engine_with fresh_ambiguous_graph)) fresh_ambiguous_graph \<and>
   (\<exists>eng' h' R.
      run_graph_ref (ref_engine_with fresh_ambiguous_graph) ''r1'' ''g'' 0 heap0 =
        Some ((Inl (ValueError (multiple_edges_msg ''B'')), eng'), h') \<and>
      get_run eng' ''r1'' = Inr R \<and> status R = ''failed'' \<and>
      error R = Some (exc_str (ValueError (multiple_edges_msg ''B''))) \<and>
      logs R = [] \<and> current_state R = fst (copy_dict heap0 0) \<and>
      unchanged heap0 h' \<and> dicts h' (current_state R) = dicts heap0 0)"
proof -
  have g: "map_of (graphs (ref_engine_with fresh_ambiguous_graph)) ''g'' = Some fresh_ambiguous_graph"
    by (simp add: ref_engine_with_def fresh_ambiguous_graph_def)
  have z: "(0::nat) < next_dict heap0" by (simp add: heap0_def)
  note p = fresh_ambiguous_graph_pure [of "tool_registry (ref_engine_with fresh_ambiguous_graph)"]
  from fresh_ambiguous_run obtain eng' h'
    where r: "run_graph_ref (ref_engine_with fresh_ambiguous_graph) ''r1'' ''g'' 0 heap0 =
        Some ((Inl (ValueError (multiple_edges_msg ''B'')), eng'), h')"
    by (cases "run_graph_ref (ref_engine_with fresh_ambiguous_graph) ''r1'' ''g'' 0 heap0") auto
  from failed_run_keeps_initial_copy [OF g r] g z p r show ?thesis by auto
qed

text \<open>
  C4 as stated fails: node \<open>A\<close> completes and returns a state that reads
  \<open>{"visited": ["A"]}\<close>, node \<open>B\<close> then fails on its two static edges, and the state of the
  failed record reads as the empty initial state.
\<close>

theorem failed_run_state_counterexample:
  "observe_pass (execute_step_ref fresh_ambiguous_graph \<lparr>tools = []\<rparr> ''A'' 2 []
                   (snd (copy_dict (snd (copy_dict heap0 0)) 0))) =
     Some (Some ''B'', Some (PDict [(''visited'', PList [PStr ''A''])])) \<and>
   observe_run ''r1'' (run_graph_ref (ref_engine_with fresh_ambiguous_graph) ''r1'' ''g'' 0 heap0) =
     Some (''failed'', Some (multiple_edges_msg ''B''), Some (PDict []), [])"
  by code_simp

text \<open>
  Without the condition on the nodes the record does not read as the initial state: the
  copy is shallow, so with nodes that extend the list under \<open>visited\<close> in place, as
  \<open>suggest_improvements\<close> does with \<open>suggestions\<close>, the failed record shows what the nodes
  appended to the list of the initial state.
\<close>

lemma failed_run_shows_in_place_writes:
  "read_state heap1 0 = Some (PDict [(''visited'', PList [PStr ''X''])]) \<and>
   observe_run ''r1'' (run_graph_ref (ref_engine_with in_place_ambiguous_graph) ''r1'' ''g'' 0 heap1) =
     Some (''failed'', Some (multiple_edges_msg ''B''),
           Some (PDict [(''visited'', PList [PStr ''X'', PStr ''A'', PStr ''B''])]), [])"
  by code_simp

text \<open>
  C5, as the code has it. For every graph that \<open>register_graph\<close> accepts, the keys of the
  stored \<open>nodes\<close> mapping are the requested names, each bound to the function the Node
  Library has under that name, and the start node is one of them: the lookup of the start
  node finds a function. Registration checks nothing else. The targets of static edges and
  the names in \<open>next_node\<close> are not examined: when the loop is entered with a name that is
  not empty and not among the requested names, the lookup raises \<open>KeyError\<close>, and a run that
  arrives at such a name, from a static edge or from \<open>next_node\<close>, fails with it.
\<close>

theorem registered_graph_invariant:
  assumes "register_graph eng gid ns es start d = (Inr gid', eng')"
  shows "\<exists>g fn. gid' = gid \<and> map_of (graphs eng') gid = Some g \<and> start_node g = start \<and>
           map_of (nodes g) (start_node g) = Some fn \<and>
           (\<forall>n. map_of (nodes g) n = (if n \<in> set ns then map_of (node_library eng) n else None)) \<and>
           (\<forall>n\<in>set ns. n \<in> set (list_nodes eng)) \<and>
           (\<forall>n tr st lg. n \<noteq> [] \<and> n \<notin> set ns \<longrightarrow>
              execute_loop g tr (Some n) st lg = Some (Inl (KeyError n))) \<and>
           (\<forall>n init st lg rid.
              reaches g (tool_registry eng') (Some (start_node g), init, []) (Some n, st, lg) \<and>
              n \<noteq> [] \<and> n \<notin> set ns \<longrightarrow>
              (\<exists>eng'' R. run_graph eng' rid gid init = Some (Inl (KeyError n), eng'') \<and>
                 get_run eng'' rid = Inr R \<and> status R = ''failed'' \<and>
                 error R = Some (py_repr n)))"
proof -
  from assms obtain nm where nm: "build_node_map (node_library eng) ns [] = Inr nm"
    by (cases "build_node_map (node_library eng) ns []") (auto simp: register_graph_def)
  from build_node_map_Inr [OF nm]
  have known: "\<forall>n\<in>set ns. map_of (node_library eng) n \<noteq> None"
    and keys: "\<forall>k. map_of nm k = (if k \<in> set ns then map_of (node_library eng) k else None)"
    by simp_all
  from assms nm have start: "map_of nm start \<noteq> None"
    by (auto simp: register_graph_def split: if_splits)
  then obtain fn where fn: "map_of nm start = Some fn" by auto
  let ?g = "\<lparr>graph_id = gid, nodes = nm, edges = map (\<lambda>(k, v). (k, normalize_edge v)) es,
             start_node = start, description = d\<rparr>"
  from assms nm start have eq: "gid' = gid" "eng' = eng\<lparr>graphs := AList.update gid ?g (graphs eng)\<rparr>"
    by (auto simp: register_graph_def Let_def split: if_splits)
  then have g: "map_of (graphs eng') gid = Some ?g"
    by (simp add: update_conv')
  have unknown: "execute_loop ?g tr (Some n) st lg = Some (Inl (KeyError n))"
    if "n \<noteq> []" "n \<notin> set ns" for n tr st lg
    using that keys by (intro execute_loop_unknown_node) simp_all
  have fails: "\<exists>eng'' R. run_graph eng' rid gid init = Some (Inl (KeyError n), eng'') \<and>
      get_run eng'' rid = Inr R \<and> status R = ''failed'' \<and> error R = Some (py_repr n)"
    if r: "reaches ?g (tool_registry eng') (Some (start_node ?g), init, []) (Some n, st, lg)"
      and n: "n \<noteq> []" "n \<notin> set ns" for n init st lg rid
  proof -
    have "execute ?g (tool_registry eng') init = Some (Inl (KeyError n))"
      using reaches_execute [OF r] unknown [OF n] by simp
    from run_graph_failed [OF g this, of rid] show ?thesis
      by (simp add: get_run_update new_run_def)
  qed
  have "gid' = gid \<and> map_of (graphs eng') gid = Some ?g \<and> start_node ?g = start \<and>
           map_of (nodes ?g) (start_node ?g) = Some fn \<and>
           (\<forall>n. map_of (nodes ?g) n = (if n \<in> set ns then map_of (node_library eng) n else None)) \<and>
           (\<forall>n\<in>set ns. n \<in> set (list_nodes eng))"
    using eq(1) g fn keys known by (simp add: in_list_nodes)
  with unknown fails show ?thesis by blast
qed

theorem registered_graph_invariant_witness:
  "register_graph example_engine ''g3'' [''A''] [(''A'', EList [''Z''])] ''A'' None =
     (Inr ''g3'', engine_with dangling_graph) \<and>
   reaches dangling_graph (tool_registry (engine_with dangling_graph))
     (Some (start_node dangling_graph), [], [])
     (Some ''Z'', [(''visited'', PList [PStr ''A''])],
      [\<lparr>node = ''A'', entry_log = None, state_snapshot = [(''visited'', PList [PStr ''A''])]\<rparr>]) \<and>
   ''Z'' \<notin> set [''A''] \<and>
   (\<exists>g fn. map_of (graphs (engine_with dangling_graph)) ''g3'' = Some g \<and> start_node g = ''A'' \<and>
      map_of (nodes g) (start_node g) = Some fn \<and>
      (\<forall>n. map_of (nodes g) n = (if n \<in> set [''A''] then map_of (node_library example_engine) n else None)) \<and>
      execute_loop g \<lparr>tools = []\<rparr> (Some ''Z'') [] [] = Some (Inl (KeyError ''Z'')) \<and>
      (\<exists>eng'' R. run_graph (engine_with dangling_graph) ''r1'' ''g3'' [] =
           Some (Inl (KeyError ''Z''), eng'') \<and>
         get_run eng'' ''r1'' = Inr R \<and> status R = ''failed'' \<and> error R = Some (py_repr ''Z'')))"
proof -
  let ?st = "[(''visited'', PList [PStr ''A''])] :: unit state"
  let ?lg = "[\<lparr>node = ''A'', entry_log = None, state_snapshot = ?st\<rparr>]"
  have r: "register_graph example_engine ''g3'' [''A''] [(''A'', EList [''Z''])] ''A'' None =
     (Inr ''g3'', engine_with dangling_graph)"
    by (simp add: register_graph_def example_engine_def example_library_def engine_with_def
        dangling_graph_def)
  have g: "map_of (graphs (engine_with dangling_graph)) ''g3'' = Some dangling_graph"
    using engine_with_graph [of dangling_graph] by (simp add: dangling_graph_def)
  have p1: "execute_step dangling_graph (tool_registry (engine_with dangling_graph)) ''A'' [] [] =
      Inr (Some ''Z'', ?st, ?lg)"
    by (simp add: execute_step_def dict_get_def dangling_graph_def run_visit_node append_visited_def)
  have re: "reaches dangling_graph (tool_registry (engine_with dangling_graph))
      (Some (start_node dangling_graph), [], []) (Some ''Z'', ?st, ?lg)"
    using reaches_pass [OF reaches_start, of "''A''" dangling_graph _ "[]" "[]", OF _ p1]
    by (simp add: dangling_graph_def)
  from registered_graph_invariant [OF r] obtain g' fn
    where a: "map_of (graphs (engine_with dangling_graph)) ''g3'' = Some g'"
      and b: "start_node g' = ''A''" "map_of (nodes g') (start_node g') = Some fn"
        "\<forall>n. map_of (nodes g') n =
           (if n \<in> set [''A''] then map_of (node_library example_engine) n else None)"
      and c: "\<forall>n tr st lg. n \<noteq> [] \<and> n \<notin> set [''A''] \<longrightarrow>
           execute_loop g' tr (Some n) st lg = Some (Inl (KeyError n))"
      and d: "\<forall>n init st lg rid.
           reaches g' (tool_registry (engine_with dangling_graph)) (Some (start_node g'), init, [])
             (Some n, st, lg) \<and> n \<noteq> [] \<and> n \<notin> set [''A''] \<longrightarrow>
           (\<exists>eng'' R. run_graph (engine_with dangling_graph) rid ''g3'' init =
                Some (Inl (KeyError n), eng'') \<and>
              get_run eng'' rid = Inr R \<and> status R = ''failed'' \<and> error R = Some (py_repr n))"
    by blast
  from a g have gg: "g' = dangling_graph" by simp
  from c have c': "execute_loop g' \<lparr>tools = []\<rparr> (Some ''Z'') [] [] = Some (Inl (KeyError ''Z''))"
    by simp
  from d [rule_format, of "[]" "''Z''" ?st ?lg "''r1''"] re gg
  have d': "\<exists>eng'' R. run_graph (engine_with dangling_graph) ''r1'' ''g3'' [] =
           Some (Inl (KeyError ''Z''), eng'') \<and>
         get_run eng'' ''r1'' = Inr R \<and> status R = ''failed'' \<and> error R = Some (py_repr ''Z'')"
    by simp
  from r re a b c' d' show ?thesis by auto
qed

text \<open>
  C5 as stated fails. The graph with the single node \<open>A\<close> and the static edge from \<open>A\<close> to
  \<open>Z\<close> is accepted, and its run raises \<open>KeyError\<close> at the lookup of \<open>Z\<close>, which is not a key
  of \<open>nodes\<close>. The graph with the single node \<open>R\<close>, whose result names \<open>C\<close> in \<open>next_node\<close>,
  is accepted too, and its run raises \<open>KeyError\<close> at the lookup of \<open>C\<close>.
\<close>

theorem unchecked_edge_target_counterexample:
  "register_graph example_engine ''g3'' [''A''] [(''A'', EList [''Z''])] ''A'' None =
     (Inr ''g3'', engine_with dangling_graph) \<and>
   map_of (nodes dangling_graph) ''Z'' = None \<and>
   execute_step dangling_graph \<lparr>tools = []\<rparr> ''A'' [] [] =
     Inr (Some ''Z'', [(''visited'', PList [PStr ''A''])],
          [\<lparr>node = ''A'', entry_log = None, state_snapshot = [(''visited'', PList [PStr ''A''])]\<rparr>]) \<and>
   run_graph (engine_with dangling_graph) ''r1'' ''g3'' [] =
     Some (Inl (KeyError ''Z''),
           (engine_with dangling_graph)
             \<lparr>runs := [(''r1'',
                \<lparr>run_id = ''r1'', run_graph_id = ''g3'', current_state = [], status = ''failed'',
                 logs = [], current_node = None, error = Some (py_repr ''Z'')\<rparr>)]\<rparr>) \<and>
   register_graph example_engine ''g6'' [''R''] [] ''R'' None =
     (Inr ''g6'', engine_with dangling_override_graph) \<and>
   map_of (nodes dangling_override_graph) ''C'' = None \<and>
   execute_step dangling_override_graph \<lparr>tools = []\<rparr> ''R'' [] [] =
     Inr (Some ''C'', [(''visited'', PList [PStr ''R''])],
          [\<lparr>node = ''R'', entry_log = None, state_snapshot = [(''visited'', PList [PStr ''R''])]\<rparr>]) \<and>
   run_graph (engine_with dangling_override_graph) ''r1'' ''g6'' [] =
     Some (Inl (KeyError ''C''),
           (engine_with dangling_override_graph)
             \<lparr>runs := [(''r1'',
                \<lparr>run_id = ''r1'', run_graph_id = ''g6'', current_state = [], status = ''failed'',
                 logs = [], current_node = None, error = Some (py_repr ''C'')\<rparr>)]\<rparr>)"
proof -
  let ?tr = "\<lparr>tools = []\<rparr> :: unit tool_registry"
  let ?st = "[(''visited'', PList [PStr ''A''])] :: unit state"
  let ?lg = "[\<lparr>node = ''A'', entry_log = None, state_snapshot = ?st\<rparr>]"
  have r: "register_graph example_engine ''g3'' [''A''] [(''A'', EList [''Z''])] ''A'' None =
     (Inr ''g3'', engine_with dangling_graph)"
    by (simp add: register_graph_def example_engine_def example_library_def engine_with_def
        dangling_graph_def)
  have z: "map_of (nodes dangling_graph) ''Z'' = None"
    by (simp add: dangling_graph_def)
  have p1: "execute_step dangling_graph ?tr ''A'' [] [] = Inr (Some ''Z'', ?st, ?lg)"
    by (simp add: execute_step_def dict_get_def dangling_graph_def run_visit_node append_visited_def)
  have p2: "execute_step dangling_graph ?tr ''Z'' ?st ?lg = Inl (KeyError ''Z'')"
    by (simp add: execute_step_def dict_get_def dangling_graph_def)
  have "execute dangling_graph ?tr [] = execute_loop dangling_graph ?tr (Some ''A'') [] []"
    by (simp add: execute_def dangling_graph_def)
  also have "\<dots> = execute_loop dangling_graph ?tr (Some ''Z'') ?st ?lg"
    by (rule execute_loop_pass [OF _ p1]) simp
  also have "\<dots> = Some (Inl (KeyError ''Z''))"
    by (rule execute_loop_raises [OF _ p2]) simp
  finally have e: "execute dangling_graph (tool_registry (engine_with dangling_graph)) [] =
      Some (Inl (KeyError ''Z''))"
    by (simp add: engine_with_tools)
  have g: "map_of (graphs (engine_with dangling_graph)) ''g3'' = Some dangling_graph"
    using engine_with_graph [of dangling_graph] by (simp add: dangling_graph_def)
  have "runs (engine_with dangling_graph) = []"
    by (simp add: engine_with_def example_engine_def)
  with run_graph_failed [OF g e, of "''r1''"] r z p1
  have first: "register_graph example_engine ''g3'' [''A''] [(''A'', EList [''Z''])] ''A'' None =
     (Inr ''g3'', engine_with dangling_graph) \<and>
   map_of (nodes dangling_graph) ''Z'' = None \<and>
   execute_step dangling_graph ?tr ''A'' [] [] = Inr (Some ''Z'', ?st, ?lg) \<and>
   run_graph (engine_with dangling_graph) ''r1'' ''g3'' [] =
     Some (Inl (KeyError ''Z''),
           (engine_with dangling_graph)
             \<lparr>runs := [(''r1'',
                \<lparr>run_id = ''r1'', run_graph_id = ''g3'', current_state = [], status = ''failed'',
                 logs = [], current_node = None, error = Some (py_repr ''Z'')\<rparr>)]\<rparr>)"
    by (simp add: new_run_def)
  let ?st2 = "[(''visited'', PList [PStr ''R''])] :: unit state"
  let ?lg2 = "[\<lparr>node = ''R'', entry_log = None, state_snapshot = ?st2\<rparr>]"
  have r2: "register_graph example_engine ''g6'' [''R''] [] ''R'' None =
     (Inr ''g6'', engine_with dangling_override_graph)"
    by (simp add: register_graph_def example_engine_def example_library_def engine_with_def
        dangling_override_graph_def)
  have z2: "map_of (nodes dangling_override_graph) ''C'' = None"
    by (simp add: dangling_override_graph_def)
  have q1: "execute_step dangling_override_graph ?tr ''R'' [] [] = Inr (Some ''C'', ?st2, ?lg2)"
    by (simp add: execute_step_def dict_get_def dangling_override_graph_def run_node_def
        redirect_node_def append_visited_def)
  have "execute dangling_override_graph ?tr [] =
      execute_loop dangling_override_graph ?tr (Some ''R'') [] []"
    by (simp add: execute_def dangling_override_graph_def)
  also have "\<dots> = execute_loop dangling_override_graph ?tr (Some ''C'') ?st2 ?lg2"
    by (rule execute_loop_pass [OF _ q1]) simp
  also have "\<dots> = Some (Inl (KeyError ''C''))"
    by (rule execute_loop_unknown_node [OF _ z2]) simp
  finally have e2: "execute dangling_override_graph
      (tool_registry (engine_with dangling_override_graph)) [] = Some (Inl (KeyError ''C''))"
    by (simp add: engine_with_tools)
  have g2: "map_of (graphs (engine_with dangling_override_graph)) ''g6'' = Some dangling_override_graph"
    using engine_with_graph [of dangling_override_graph] by (simp add: dangling_override_graph_def)
  have "runs (engine_with dangling_override_graph) = []"
    by (simp add: engine_with_def example_engine_def)
  with run_graph_failed [OF g2 e2, of "''r1''"] r2 z2 q1
  have second: "register_graph example_engine ''g6'' [''R''] [] ''R'' None =
     (Inr ''g6'', engine_with dangling_override_graph) \<and>
   map_of (nodes dangling_override_graph) ''C'' = None \<and>
   execute_step dangling_override_graph ?tr ''R'' [] [] = Inr (Some ''C'', ?st2, ?lg2) \<and>
   run_graph (engine_with dangling_override_graph) ''r1'' ''g6'' [] =
     Some (Inl (KeyError ''C''),
           (engine_with dangling_override_graph)
             \<lparr>runs := [(''r1'',
                \<lparr>run_id = ''r1'', run_graph_id = ''g6'', current_state = [], status = ''failed'',
                 logs = [], current_node = None, error = Some (py_repr ''C'')\<rparr>)]\<rparr>)"
    by (simp add: new_run_def)
  from first second show ?thesis by simp
qed

text \<open>
  C6. What a node hands back is converted as follows: a \<open>NodeResult\<close> is used as it is; a
  dictionary \<open>d\<close> becomes \<open>NodeResult(state=d)\<close> with no \<open>next_node\<close> and no \<open>log\<close>; any
  other value raises \<open>TypeError\<close>, and when that happens at a node the run has reached,
  \<open>run_graph\<close> raises it and the run record has status \<open>failed\<close>.
\<close>

theorem node_result_conversion:
  "(fn1 st1 tr = Inr (RetNodeResult r) \<longrightarrow> run_node tr fn1 st1 = Inr r) \<and>
   (fn2 st2 tr = Inr (RetValue (PDict d)) \<longrightarrow>
      run_node tr fn2 st2 = Inr \<lparr>state = d, next_node = None, log = None\<rparr>) \<and>
   (fn3 st3 tr = Inr (RetValue v) \<and> (\<forall>d'. v \<noteq> PDict d') \<longrightarrow>
      run_node tr fn3 st3 = Inl (TypeError ''Node must return NodeResult or dict'')) \<and>
   (map_of (graphs eng) gid = Some g \<and>
    reaches g (tool_registry eng) (Some (start_node g), init, []) (Some cur, st, lg) \<and>
    cur \<noteq> [] \<and> map_of (nodes g) cur = Some fn \<and>
    fn st (tool_registry eng) = Inr (RetValue w) \<and> (\<forall>d'. w \<noteq> PDict d') \<longrightarrow>
      (\<exists>eng' R. run_graph eng rid gid init =
                   Some (Inl (TypeError ''Node must return NodeResult or dict''), eng') \<and>
                 get_run eng' rid = Inr R \<and> status R = ''failed'' \<and>
                 error R = Some ''Node must return NodeResult or dict''))"
proof (intro conjI impI)
  assume "fn1 st1 tr = Inr (RetNodeResult r)"
  then show "run_node tr fn1 st1 = Inr r" by (simp add: run_node_def)
next
  assume "fn2 st2 tr = Inr (RetValue (PDict d))"
  then show "run_node tr fn2 st2 = Inr \<lparr>state = d, next_node = None, log = None\<rparr>"
    by (simp add: run_node_def)
next
  assume "fn3 st3 tr = Inr (RetValue v) \<and> (\<forall>d'. v \<noteq> PDict d')"
  then show "run_node tr fn3 st3 = Inl (TypeError ''Node must return NodeResult or dict'')"
    by (cases v) (simp_all add: run_node_def)
next
  assume a: "map_of (graphs eng) gid = Some g \<and>
    reaches g (tool_registry eng) (Some (start_node g), init, []) (Some cur, st, lg) \<and>
    cur \<noteq> [] \<and> map_of (nodes g) cur = Some fn \<and>
    fn st (tool_registry eng) = Inr (RetValue w) \<and> (\<forall>d'. w \<noteq> PDict d')"
  then have "run_node (tool_registry eng) fn st = Inl (TypeError ''Node must return NodeResult or dict'')"
    by (cases w) (simp_all add: run_node_def)
  with a have "execute_step g (tool_registry eng) cur st lg =
      Inl (TypeError ''Node must return NodeResult or dict'')"
    by (simp add: execute_step_raises)
  with a have "execute_loop g (tool_registry eng) (Some cur) st lg =
      Some (Inl (TypeError ''Node must return NodeResult or dict''))"
    by (simp add: execute_loop_raises)
  with a have "execute g (tool_registry eng) init =
      Some (Inl (TypeError ''Node must return NodeResult or dict''))"
    using reaches_execute [of g "tool_registry eng" init "Some cur" st lg] by simp
  with a show "\<exists>eng' R. run_graph eng rid gid init =
                   Some (Inl (TypeError ''Node must return NodeResult or dict''), eng') \<and>
                 get_run eng' rid = Inr R \<and> status R = ''failed'' \<and>
                 error R = Some ''Node must return NodeResult or dict''"
    using run_graph_failed [of eng gid g init "TypeError ''Node must return NodeResult or dict''" rid]
    by (simp add: get_run_update new_run_def)
qed

theorem node_result_conversion_witness:
  "visit_node ''A'' [] \<lparr>tools = []\<rparr> =
     Inr (RetNodeResult \<lparr>state = [(''visited'', PList [PStr ''A''])], next_node = None, log = None\<rparr>) \<and>
   run_node \<lparr>tools = []\<rparr> (visit_node ''A'') [] =
     Inr \<lparr>state = [(''visited'', PList [PStr ''A''])], next_node = None, log = None\<rparr> \<and>
   dict_node ''D'' [] \<lparr>tools = []\<rparr> = Inr (RetValue (PDict [(''visited'', PList [PStr ''D''])])) \<and>
   run_node \<lparr>tools = []\<rparr> (dict_node ''D'') [] =
     Inr \<lparr>state = [(''visited'', PList [PStr ''D''])], next_node = None, log = None\<rparr> \<and>
   int_node [] \<lparr>tools = []\<rparr> = Inr (RetValue (PInt 5)) \<and>
   run_node \<lparr>tools = []\<rparr> int_node [] = Inl (TypeError ''Node must return NodeResult or dict'') \<and>
   map_of (graphs (engine_with int_graph)) ''g2'' = Some int_graph \<and>
   reaches int_graph (tool_registry (engine_with int_graph)) (Some (start_node int_graph), [], [])
     (Some ''I'', [(''visited'', PList [PStr ''A''])],
      [\<lparr>node = ''A'', entry_log = None, state_snapshot = [(''visited'', PList [PStr ''A''])]\<rparr>]) \<and>
   map_of (nodes int_graph) ''I'' = Some int_node \<and>
   (\<exists>eng' R. run_graph (engine_with int_graph) ''r1'' ''g2'' [] =
                Some (Inl (TypeError ''Node must return NodeResult or dict''), eng') \<and>
              get_run eng' ''r1'' = Inr R \<and> status R = ''failed'' \<and>
              error R = Some ''Node must return NodeResult or dict'')"
proof -
  let ?tr = "\<lparr>tools = []\<rparr> :: unit tool_registry"
  let ?st = "[(''visited'', PList [PStr ''A''])] :: unit state"
  let ?lg = "[\<lparr>node = ''A'', entry_log = None, state_snapshot = ?st\<rparr>]"
  have a: "visit_node ''A'' [] ?tr =
      Inr (RetNodeResult \<lparr>state = ?st, next_node = None, log = None\<rparr>)"
    by (simp add: visit_node_def append_visited_def)
  have d: "dict_node ''D'' [] ?tr = Inr (RetValue (PDict [(''visited'', PList [PStr ''D''])]))"
    by (simp add: dict_node_def append_visited_def)
  have i: "int_node ?st (tool_registry (engine_with int_graph)) = Inr (RetValue (PInt 5))"
      "int_node [] ?tr = Inr (RetValue (PInt 5))"
    by (simp_all add: int_node_def)
  have g: "map_of (graphs (engine_with int_graph)) ''g2'' = Some int_graph"
    using engine_with_graph [of int_graph] by (simp add: int_graph_def)
  have r: "reaches int_graph (tool_registry (engine_with int_graph))
      (Some (start_node int_graph), [], []) (Some ''I'', ?st, ?lg)"
    using reaches_pass [OF reaches_start, of "''A''" int_graph _ "[]" "[]", OF _ int_graph_first_pass]
    by (simp add: int_graph_def)
  have n: "map_of (nodes int_graph) ''I'' = Some int_node"
    by (simp add: int_graph_def)
  from node_result_conversion [of "visit_node ''A''" "[]" ?tr
      "\<lparr>state = ?st, next_node = None, log = None\<rparr>"
      "dict_node ''D''" "[]" "[(''visited'', PList [PStr ''D''])]"
      int_node "[]" "PInt 5" "engine_with int_graph" "''g2''" int_graph "[]" "''I''" ?st ?lg
      int_node "PInt 5" "''r1''"] a d i g r n
  show ?thesis by simp
qed

text \<open>
  C7. When \<open>register_graph\<close> is given a node name that the Node Library lacks, it raises a
  \<open>ValueError\<close> whose message names such a node and lists the available node names, and the
  engine, with its table of graphs, is unchanged. When every name is known but the start
  node is not among them, it raises a \<open>ValueError\<close> too, and again the engine is unchanged.
\<close>

theorem register_graph_validation:
  "((\<exists>n\<in>set ns. n \<notin> set (list_nodes eng)) \<longrightarrow>
      (\<exists>n\<in>set ns. n \<notin> set (list_nodes eng) \<and>
         register_graph eng gid ns es start d =
           (Inl (ValueError (''Unknown node '' @ [CHR 0x27] @ n @ [CHR 0x27] @ ''. Available: '' @
                             py_repr_list (list_nodes eng))), eng))) \<and>
   ((\<forall>n\<in>set ns. n \<in> set (list_nodes eng)) \<and> start \<notin> set ns \<longrightarrow>
      register_graph eng gid ns es start d =
        (Inl (ValueError (''Start node '' @ [CHR 0x27] @ start @ [CHR 0x27] @
                          '' must be in nodes list'')), eng))"
proof (intro conjI impI)
  assume "\<exists>n\<in>set ns. n \<notin> set (list_nodes eng)"
  then have "\<exists>n\<in>set ns. map_of (node_library eng) n = None"
    by (simp add: in_list_nodes)
  from build_node_map_unknown [OF this, of "[]"]
  obtain n where n: "n \<in> set ns" "map_of (node_library eng) n = None"
    and b: "build_node_map (node_library eng) ns [] =
      Inl (ValueError (unknown_node_msg n (sort (dict_keys (node_library eng)))))"
    by blast
  from n(2) have "n \<notin> set (list_nodes eng)" by (simp add: in_list_nodes)
  moreover from b have "register_graph eng gid ns es start d =
           (Inl (ValueError (''Unknown node '' @ [CHR 0x27] @ n @ [CHR 0x27] @ ''. Available: '' @
                             py_repr_list (list_nodes eng))), eng)"
    by (simp add: register_graph_def unknown_node_msg_def list_nodes_def)
  ultimately show "\<exists>n\<in>set ns. n \<notin> set (list_nodes eng) \<and>
         register_graph eng gid ns es start d =
           (Inl (ValueError (''Unknown node '' @ [CHR 0x27] @ n @ [CHR 0x27] @ ''. Available: '' @
                             py_repr_list (list_nodes eng))), eng)"
    using n(1) by blast
next
  assume a: "(\<forall>n\<in>set ns. n \<in> set (list_nodes eng)) \<and> start \<notin> set ns"
  then have "\<forall>n\<in>set ns. map_of (node_library eng) n \<noteq> None"
    by (simp add: in_list_nodes)
  from build_node_map_known [OF this, of "[]"] a
  show "register_graph eng gid ns es start d =
        (Inl (ValueError (''Start node '' @ [CHR 0x27] @ start @ [CHR 0x27] @
                          '' must be in nodes list'')), eng)"
    by (auto simp: register_graph_def start_node_msg_def)
qed

theorem register_graph_validation_witness:
  "''Z'' \<in> set [''A'', ''Z''] \<and> ''Z'' \<notin> set (list_nodes example_engine) \<and>
   (\<exists>n\<in>set [''A'', ''Z'']. n \<notin> set (list_nodes example_engine) \<and>
      register_graph example_engine ''g'' [''A'', ''Z''] [] ''A'' None =
        (Inl (ValueError (''Unknown node '' @ [CHR 0x27] @ n @ [CHR 0x27] @ ''. Available: '' @
                          py_repr_list (list_nodes example_engine))), example_engine)) \<and>
   ''A'' \<in> set (list_nodes example_engine) \<and> ''B'' \<in> set (list_nodes example_engine) \<and>
   ''C'' \<notin> set [''A'', ''B''] \<and>
   register_graph example_engine ''g'' [''A'', ''B''] [] ''C'' None =
     (Inl (ValueError (''Start node '' @ [CHR 0x27] @ ''C'' @ [CHR 0x27] @
                       '' must be in nodes list'')), example_engine)"
proof -
  have z: "''Z'' \<notin> set (list_nodes example_engine)"
    and ab: "\<forall>n\<in>set [''A'', ''B'']. n \<in> set (list_nodes example_engine)"
    by (simp_all add: in_list_nodes example_engine_def example_library_def)
  from z have "\<exists>n\<in>set [''A'', ''Z'']. n \<notin> set (list_nodes example_engine)" by simp
  with register_graph_validation [where ns = "[''A'', ''Z'']" and eng = example_engine
      and gid = "''g''" and es = "[]" and start = "''A''" and d = None]
    register_graph_validation [where ns = "[''A'', ''B'']" and eng = example_engine
      and gid = "''g''" and es = "[]" and start = "''C''" and d = None] z ab
  show ?thesis by simp
qed

text \<open>
  C8, as the code has it. Take a registered graph with the quality loop:
  \<open>suggest_improvements\<close> has the single static edge to \<open>check_quality\<close>, and
  \<open>check_quality\<close> has no static edge. Let a run reach either node with a state in which
  \<open>max_iterations\<close> is 3, \<open>iterations\<close> is absent, the entry under \<open>suggestions\<close> is a list or
  absent, and the quality score is computed from the state and found below the threshold.
  Then the run completes: the logs it adds hold exactly three entries of \<open>check_quality\<close>,
  and the final state has \<open>iterations = 3\<close>. This holds for every choice of the
  floating-point operations.
\<close>

theorem quality_loop_terminates:
  assumes "map_of (graphs eng) gid = Some g"
    and "map_of (nodes g) ''suggest_improvements'' = Some (suggest_improvements fo)"
    and "map_of (nodes g) ''check_quality'' = Some (check_quality fo)"
    and "map_of (edges g) ''suggest_improvements'' = Some [''check_quality'']"
    and "dict_get (edges g) ''check_quality'' [] = []"
    and "reaches g (tool_registry eng) (Some (start_node g), init, []) (Some cur, st, lg)"
    and "cur = ''suggest_improvements'' \<or> cur = ''check_quality''"
    and "map_of st ''max_iterations'' = Some (PInt 3)"
    and "map_of st ''iterations'' = None"
    and "dict_get st ''suggestions'' (PList []) = PList xs"
    and "get_method (dict_get st ''issues'' (PDict [])) ''issues'' (PInt 0) = Inr issues_count"
    and "quality_score fo issues_count (dict_get st ''complexity_score'' (PInt 0)) = Inr q"
    and "num_ge fo (NFloat q) (dict_get st ''quality_threshold'' (PFloat (f_dec fo 7 1))) = Inr False"
  shows "\<exists>R eng' new.
           run_graph eng rid gid init = Some (Inr R, eng') \<and>
           get_run eng' rid = Inr R \<and>
           status R = ''completed'' \<and>
           logs R = lg @ new \<and>
           length (filter (\<lambda>e. node e = ''check_quality'') new) = 3 \<and>
           map_of (current_state R) ''iterations'' = Some (PInt 3)"
proof -
  let ?tr = "tool_registry eng"
  have inv: "gate_invariant fo 3 0 st"
    using assms(8-13) by (auto simp: gate_invariant_def dict_get_def)
  have "\<exists>final new. execute_loop g ?tr (Some cur) st lg = Some (Inr (final, lg @ new)) \<and>
       length (filter (\<lambda>e. node e = ''check_quality'') new) = 3 \<and>
       dict_get final ''iterations'' (PInt 0) = PInt 3"
  proof (cases "cur = ''check_quality''")
    case True
    with gate_loop_from_check [OF assms(2-5) inv, of 2 ?tr lg] show ?thesis by simp
  next
    case False
    with assms(7) have cur: "cur = ''suggest_improvements''" by simp
    from gate_suggest_pass [OF assms(2,4) inv, of ?tr lg] obtain st1 e1
      where p: "execute_step g ?tr ''suggest_improvements'' st lg =
          Inr (Some ''check_quality'', st1, lg @ [e1])"
        and e1: "node e1 = ''suggest_improvements''" and i1: "gate_invariant fo 3 0 st1"
      by auto
    from gate_loop_from_check [OF assms(2-5) i1, of 2 ?tr "lg @ [e1]"] obtain final new
      where l: "execute_loop g ?tr (Some ''check_quality'') st1 (lg @ [e1]) =
          Some (Inr (final, (lg @ [e1]) @ new))"
        and c: "length (filter (\<lambda>e. node e = ''check_quality'') new) = 3"
        and f: "dict_get final ''iterations'' (PInt 0) = PInt 3"
      by auto
    have "execute_loop g ?tr (Some ''suggest_improvements'') st lg =
        execute_loop g ?tr (Some ''check_quality'') st1 (lg @ [e1])"
      by (rule execute_loop_pass [OF _ p]) simp
    with l have "execute_loop g ?tr (Some cur) st lg = Some (Inr (final, lg @ (e1 # new)))"
      using cur by simp
    moreover have "length (filter (\<lambda>e. node e = ''check_quality'') (e1 # new)) = 3"
      using c e1 by simp
    ultimately show ?thesis using f by blast
  qed
  then obtain final new
    where l: "execute_loop g ?tr (Some cur) st lg = Some (Inr (final, lg @ new))"
      and c: "length (filter (\<lambda>e. node e = ''check_quality'') new) = 3"
      and f: "dict_get final ''iterations'' (PInt 0) = PInt 3"
    by blast
  from f have f': "map_of final ''iterations'' = Some (PInt 3)"
    by (auto simp: dict_get_def split: option.splits)
  from l have "execute g ?tr init = Some (Inr (final, lg @ new))"
    using reaches_execute [OF assms(6)] by simp
  from run_graph_completed [OF assms(1) this, of rid] c f'
  show ?thesis by (simp add: get_run_update new_run_def)
qed

theorem quality_loop_terminates_witness:
  "map_of (graphs quality_engine) ''q1'' = Some quality_graph \<and>
   map_of (edges quality_graph) ''suggest_improvements'' = Some [''check_quality''] \<and>
   dict_get (edges quality_graph) ''check_quality'' [] = [] \<and>
   start_node quality_graph = ''suggest_improvements'' \<and>
   quality_score thousandths (PInt 5) (PInt 0) = Inr 0 \<and>
   num_ge thousandths (NFloat 0) (PFloat (f_dec thousandths 7 1)) = Inr False \<and>
   (\<exists>R eng' new.
      run_graph quality_engine ''r1'' ''q1''
        [(''max_iterations'', PInt 3), (''issues'', PDict [(''issues'', PInt 5)])] =
        Some (Inr R, eng') \<and>
      get_run eng' ''r1'' = Inr R \<and>
      status R = ''completed'' \<and>
      logs R = [] @ new \<and>
      length (filter (\<lambda>e. node e = ''check_quality'') new) = 3 \<and>
      map_of (current_state R) ''iterations'' = Some (PInt 3))"
proof -
  let ?st = "[(''max_iterations'', PInt 3), (''issues'', PDict [(''issues'', PInt 5)])] :: int state"
  have g: "map_of (graphs quality_engine) ''q1'' = Some quality_graph"
    by (simp add: quality_engine_def)
  have n1: "map_of (nodes quality_graph) ''suggest_improvements'' =
      Some (suggest_improvements thousandths)"
    and n2: "map_of (nodes quality_graph) ''check_quality'' = Some (check_quality thousandths)"
    and e1: "map_of (edges quality_graph) ''suggest_improvements'' = Some [''check_quality'']"
    and e2: "dict_get (edges quality_graph) ''check_quality'' [] = []"
    and s: "start_node quality_graph = ''suggest_improvements''"
    by (simp_all add: quality_graph_def dict_get_def)
  have r: "reaches quality_graph (tool_registry quality_engine)
      (Some (start_node quality_graph), ?st, []) (Some ''suggest_improvements'', ?st, [])"
    using reaches_start [of quality_graph "tool_registry quality_engine"
        "(Some ''suggest_improvements'', ?st, [])"] s by simp
  have m: "map_of ?st ''max_iterations'' = Some (PInt 3)"
    and i: "map_of ?st ''iterations'' = None"
    and x: "dict_get ?st ''suggestions'' (PList []) = PList []"
    and ic: "get_method (dict_get ?st ''issues'' (PDict [])) ''issues'' (PInt 0) = Inr (PInt 5)"
    by (simp_all add: dict_get_def get_method_def)
  have q: "quality_score thousandths (PInt 5) (PInt 0) = Inr 0"
    by (simp add: quality_score_def float_mul_def thousandths_def)
  have q': "quality_score thousandths (PInt 5) (dict_get ?st ''complexity_score'' (PInt 0)) = Inr 0"
    using q by (simp add: dict_get_def)
  have c: "num_ge thousandths (NFloat 0) (PFloat (f_dec thousandths 7 1)) = Inr False"
    by (simp add: num_ge_def thousandths_def)
  have c': "num_ge thousandths (NFloat 0)
      (dict_get ?st ''quality_threshold'' (PFloat (f_dec thousandths 7 1))) = Inr False"
    using c by (simp add: dict_get_def)
  from quality_loop_terminates [OF g n1 n2 e1 e2 r _ m i x ic q' c', of "''r1''"] g e1 e2 s q c
  show ?thesis by simp
qed

text \<open>
  C8 as stated fails: it says nothing of \<open>suggestions\<close>. With \<open>max_iterations = 3\<close>,
  \<open>iterations\<close> absent, a score below the threshold and \<open>suggestions = None\<close>, the first
  pass, at \<open>suggest_improvements\<close>, raises \<open>AttributeError\<close> on \<open>None.extend\<close>, and the run
  fails before \<open>check_quality\<close> is executed once.
\<close>

theorem suggestions_none_counterexample:
  "map_of [(''max_iterations'', PInt 3), (''issues'', PDict [(''issues'', PInt 5)]),
           (''suggestions'', PNone :: int pyval)] ''max_iterations'' = Some (PInt 3) \<and>
   map_of [(''max_iterations'', PInt 3), (''issues'', PDict [(''issues'', PInt 5)]),
           (''suggestions'', PNone :: int pyval)] ''iterations'' = None \<and>
   quality_score thousandths (PInt 5) (PInt 0) = Inr 0 \<and>
   num_ge thousandths (NFloat 0) (PFloat (f_dec thousandths 7 1)) = Inr False \<and>
   start_node quality_graph = ''suggest_improvements'' \<and>
   execute_step quality_graph \<lparr>tools = []\<rparr> ''suggest_improvements''
     [(''max_iterations'', PInt 3), (''issues'', PDict [(''issues'', PInt 5)]),
      (''suggestions'', PNone)] [] =
     Inl (AttributeError ([CHR 0x27] @ ''NoneType'' @ [CHR 0x27] @ '' object has no attribute '' @
                          [CHR 0x27] @ ''extend'' @ [CHR 0x27])) \<and>
   run_graph quality_engine ''r1'' ''q1''
     [(''max_iterations'', PInt 3), (''issues'', PDict [(''issues'', PInt 5)]),
      (''suggestions'', PNone)] =
     Some (Inl (AttributeError ([CHR 0x27] @ ''NoneType'' @ [CHR 0x27] @
                                '' object has no attribute '' @ [CHR 0x27] @ ''extend'' @
                                [CHR 0x27])),
           quality_engine
             \<lparr>runs := [(''r1'',
                \<lparr>run_id = ''r1'', run_graph_id = ''q1'',
                 current_state = [(''max_iterations'', PInt 3),
                                  (''issues'', PDict [(''issues'', PInt 5)]),
                                  (''suggestions'', PNone)],
                 status = ''failed'', logs = [], current_node = None,
                 error = Some ([CHR 0x27] @ ''NoneType'' @ [CHR 0x27] @
                               '' object has no attribute '' @ [CHR 0x27] @ ''extend'' @
                               [CHR 0x27])\<rparr>)]\<rparr>)"
proof -
  let ?st = "[(''max_iterations'', PInt 3), (''issues'', PDict [(''issues'', PInt 5)]),
      (''suggestions'', PNone)] :: int state"
  let ?e = "AttributeError ([CHR 0x27] @ ''NoneType'' @ [CHR 0x27] @ '' object has no attribute '' @
      [CHR 0x27] @ ''extend'' @ [CHR 0x27])"
  have q: "quality_score thousandths (PInt 5) (PInt 0) = Inr 0"
    by (simp add: quality_score_def float_mul_def thousandths_def)
  have c: "num_ge thousandths (NFloat 0) (PFloat (f_dec thousandths 7 1)) = Inr False"
    by (simp add: num_ge_def thousandths_def)
  have s: "start_node quality_graph = ''suggest_improvements''"
    by (simp add: quality_graph_def)
  have p: "execute_step quality_graph \<lparr>tools = []\<rparr> ''suggest_improvements'' ?st [] = Inl ?e"
    by (simp add: execute_step_def quality_graph_def run_node_def suggest_improvements_def
        dict_get_def gt_num_def get_method_def thousandths_def quoted_def Let_def)
  have "execute quality_graph \<lparr>tools = []\<rparr> ?st =
      execute_loop quality_graph \<lparr>tools = []\<rparr> (Some ''suggest_improvements'') ?st []"
    by (simp add: execute_def s)
  also have "\<dots> = Some (Inl ?e)"
    by (rule execute_loop_raises [OF _ p]) simp
  finally have e: "execute quality_graph (tool_registry quality_engine) ?st = Some (Inl ?e)"
    by (simp add: quality_engine_def)
  have g: "map_of (graphs quality_engine) ''q1'' = Some quality_graph"
    by (simp add: quality_engine_def)
  have "runs quality_engine = []" by (simp add: quality_engine_def)
  with run_graph_failed [OF g e, of "''r1''"] q c s p
  show ?thesis by (simp add: new_run_def)
qed

text \<open>
  C9. An edge value given as a single name is normalized to a one-element list when the
  graph is registered. Registering with \<open>{"a": "b"}\<close> returns the same result and leaves the
  same engine as registering with \<open>{"a": ["b"]}\<close>, also among other edges, so every later
  run is the same. When the registration is accepted, the graph it stores has the edge list
  \<open>["b"]\<close> for \<open>a\<close>, and a pass at \<open>a\<close> whose result gives no \<open>next_node\<close> is followed by the
  loop at \<open>b\<close>.
\<close>

theorem single_name_edge_normalized:
  "register_graph eng gid ns [(a, EName b)] start d =
     register_graph eng gid ns [(a, EList [b])] start d \<and>
   register_graph eng gid ns (es1 @ (a, EName b) # es2) start d =
     register_graph eng gid ns (es1 @ (a, EList [b]) # es2) start d \<and>
   run_graph (snd (register_graph eng gid ns (es1 @ (a, EName b) # es2) start d)) rid gid' init =
     run_graph (snd (register_graph eng gid ns (es1 @ (a, EList [b]) # es2) start d)) rid gid' init \<and>
   (fst (register_graph eng gid ns (es1 @ (a, EName b) # es2) start d) = Inr gid'' \<and>
    a \<notin> fst ` set es1 \<longrightarrow>
      (\<exists>g. map_of (graphs (snd (register_graph eng gid ns (es1 @ (a, EName b) # es2) start d))) gid =
             Some g \<and>
           map_of (edges g) a = Some [b] \<and>
           (\<forall>tr fn st lg r.
              a \<noteq> [] \<and> map_of (nodes g) a = Some fn \<and> run_node tr fn st = Inr r \<and>
              next_node r = None \<longrightarrow>
              execute_loop g tr (Some a) st lg =
                execute_loop g tr (Some b) (state r)
                  (lg @ [\<lparr>node = a, entry_log = log r, state_snapshot = state r\<rparr>]))))"
proof -
  let ?es = "es1 @ (a, EName b) # es2"
  have stored: "\<exists>g. map_of (graphs (snd (register_graph eng gid ns ?es start d))) gid = Some g \<and>
      map_of (edges g) a = Some [b] \<and>
      (\<forall>tr fn st lg r.
         a \<noteq> [] \<and> map_of (nodes g) a = Some fn \<and> run_node tr fn st = Inr r \<and>
         next_node r = None \<longrightarrow>
         execute_loop g tr (Some a) st lg =
           execute_loop g tr (Some b) (state r)
             (lg @ [\<lparr>node = a, entry_log = log r, state_snapshot = state r\<rparr>]))"
    if acc: "fst (register_graph eng gid ns ?es start d) = Inr gid''" and a: "a \<notin> fst ` set es1"
  proof -
    from acc obtain nm where nm: "build_node_map (node_library eng) ns [] = Inr nm"
      by (cases "build_node_map (node_library eng) ns []") (auto simp: register_graph_def)
    with acc have start: "map_of nm start \<noteq> None"
      by (auto simp: register_graph_def split: if_splits)
    let ?g = "\<lparr>graph_id = gid, nodes = nm, edges = map (\<lambda>(k, v). (k, normalize_edge v)) ?es,
               start_node = start, description = d\<rparr>"
    from nm start have "snd (register_graph eng gid ns ?es start d) =
        eng\<lparr>graphs := AList.update gid ?g (graphs eng)\<rparr>"
      by (auto simp: register_graph_def Let_def)
    then have g: "map_of (graphs (snd (register_graph eng gid ns ?es start d))) gid = Some ?g"
      by (simp add: update_conv')
    from a have "map_of (map (\<lambda>(k, v). (k, normalize_edge v)) es1) a = None"
      by (force simp: map_of_eq_None_iff)
    then have e: "map_of (edges ?g) a = Some [b]"
      by (simp add: map_add_def)
    have "execute_loop ?g tr (Some a) st lg =
        execute_loop ?g tr (Some b) (state r)
          (lg @ [\<lparr>node = a, entry_log = log r, state_snapshot = state r\<rparr>])"
      if "a \<noteq> []" "map_of (nodes ?g) a = Some fn" "run_node tr fn st = Inr r" "next_node r = None"
      for tr fn st lg r
      by (rule execute_loop_pass [OF that(1) execute_step_single_edge [OF that(2-4) e]])
    with g e show ?thesis by blast
  qed
  have "register_graph eng gid ns [(a, EName b)] start d =
      register_graph eng gid ns [(a, EList [b])] start d"
    using register_graph_single_name [of eng gid ns "[]" a b "[]" start d] by simp
  with stored show ?thesis
    by (simp add: register_graph_single_name)
qed

theorem single_name_edge_normalized_witness:
  "register_graph example_engine ''g'' [''A'', ''B''] [(''A'', EName ''B'')] ''A'' None =
     register_graph example_engine ''g'' [''A'', ''B''] [(''A'', EList [''B''])] ''A'' None \<and>
   fst (register_graph example_engine ''g'' [''A'', ''B''] ([] @ (''A'', EName ''B'') # []) ''A'' None) =
     Inr ''g'' \<and>
   ''A'' \<notin> fst ` set ([] :: (string \<times> edge_value) list) \<and>
   run_node \<lparr>tools = []\<rparr> (visit_node ''A'') [] =
     Inr \<lparr>state = [(''visited'', PList [PStr ''A''])], next_node = None, log = None\<rparr> \<and>
   (\<exists>g. map_of (graphs (snd (register_graph example_engine ''g'' [''A'', ''B'']
                               ([] @ (''A'', EName ''B'') # []) ''A'' None))) ''g'' = Some g \<and>
        map_of (edges g) ''A'' = Some [''B''] \<and>
        map_of (nodes g) ''A'' = Some (visit_node ''A'') \<and>
        execute_loop g \<lparr>tools = []\<rparr> (Some ''A'') [] [] =
          execute_loop g \<lparr>tools = []\<rparr> (Some ''B'') [(''visited'', PList [PStr ''A''])]
            [\<lparr>node = ''A'', entry_log = None,
              state_snapshot = [(''visited'', PList [PStr ''A''])]\<rparr>])"
proof -
  let ?reg = "register_graph example_engine ''g'' [''A'', ''B''] ([] @ (''A'', EName ''B'') # [])
      ''A'' None"
  let ?r = "\<lparr>state = [(''visited'', PList [PStr ''A''])], next_node = None, log = None\<rparr>
      :: unit state node_result"
  note t = single_name_edge_normalized [where eng = example_engine and gid = "''g''"
      and ns = "[''A'', ''B'']" and a = "''A''" and b = "''B''" and start = "''A''" and d = None
      and ?es1.0 = "[]" and ?es2.0 = "[]" and rid = "''r1''" and gid' = "''g''" and init = "[]"
      and gid'' = "''g''"]
  have acc: "fst ?reg = Inr ''g''"
    by (simp add: register_graph_def example_engine_def example_library_def)
  have rn: "run_node \<lparr>tools = []\<rparr> (visit_node ''A'') [] = Inr ?r"
    by (simp add: run_visit_node append_visited_def)
  from t acc obtain g where g: "map_of (graphs (snd ?reg)) ''g'' = Some g"
    and e: "map_of (edges g) ''A'' = Some [''B'']"
    and l: "\<forall>tr fn st lg r.
        ''A'' \<noteq> [] \<and> map_of (nodes g) ''A'' = Some fn \<and> run_node tr fn st = Inr r \<and>
        next_node r = None \<longrightarrow>
        execute_loop g tr (Some ''A'') st lg =
          execute_loop g tr (Some ''B'') (state r)
            (lg @ [\<lparr>node = ''A'', entry_log = log r, state_snapshot = state r\<rparr>])"
    by auto
  have "snd ?reg = example_engine\<lparr>graphs :=
      [(''g'', \<lparr>graph_id = ''g'', nodes = [(''A'', visit_node ''A''), (''B'', visit_node ''B'')],
                edges = [(''A'', [''B''])], start_node = ''A'', description = None\<rparr>)]\<rparr>"
    by (simp add: register_graph_def example_engine_def example_library_def)
  with g have n: "map_of (nodes g) ''A'' = Some (visit_node ''A'')" by auto
  from l [rule_format, of "visit_node ''A''" "\<lparr>tools = []\<rparr>" "[]" ?r "[]"] n rn
  have "execute_loop g \<lparr>tools = []\<rparr> (Some ''A'') [] [] =
      execute_loop g \<lparr>tools = []\<rparr> (Some ''B'') [(''visited'', PList [PStr ''A''])]
        [\<lparr>node = ''A'', entry_log = None, state_snapshot = [(''visited'', PList [PStr ''A''])]\<rparr>]"
    by simp
  with t acc rn g e n show ?thesis by auto
qed

text \<open>
  C10. When \<open>run_graph\<close> fails during the execution of a registered graph, the record that
  \<open>get_run\<close> returns has empty logs and no current node, whatever nodes ran before the
  failure: it is the record as created, with only \<open>status\<close> and \<open>error\<close> changed.
\<close>

theorem failed_run_record:
  assumes "map_of (graphs eng) gid = Some g"
    and "run_graph eng rid gid init = Some (Inl e, eng')"
  shows "get_run eng' rid =
           Inr \<lparr>run_id = rid, run_graph_id = gid, current_state = init, status = ''failed'',
                logs = [], current_node = None, error = Some (exc_str e)\<rparr>"
proof -
  from assms obtain "execute g (tool_registry eng) init = Some (Inl e)"
    by (auto simp: run_graph_def Let_def split: option.splits sum.splits prod.splits)
  from run_graph_failed [OF assms(1) this, of rid] assms(2)
  show ?thesis by (auto simp: get_run_update new_run_def)
qed

theorem failed_run_record_witness:
  "map_of (graphs (engine_with ambiguous_graph)) ''g1'' = Some ambiguous_graph \<and>
   run_graph (engine_with ambiguous_graph) ''r1'' ''g1'' [] =
     Some (Inl (ValueError (multiple_edges_msg ''B'')),
           (engine_with ambiguous_graph)
             \<lparr>runs := AList.update ''r1''
                ((new_run ''r1'' ''g1'' [])
                   \<lparr>status := ''failed'', error := Some (multiple_edges_msg ''B'')\<rparr>)
                (runs (engine_with ambiguous_graph))\<rparr>) \<and>
   get_run ((engine_with ambiguous_graph)
             \<lparr>runs := AList.update ''r1''
                ((new_run ''r1'' ''g1'' [])
                   \<lparr>status := ''failed'', error := Some (multiple_edges_msg ''B'')\<rparr>)
                (runs (engine_with ambiguous_graph))\<rparr>) ''r1'' =
     Inr \<lparr>run_id = ''r1'', run_graph_id = ''g1'', current_state = [], status = ''failed'',
          logs = [], current_node = None,
          error = Some (exc_str (ValueError (multiple_edges_msg ''B'')))\<rparr>"
proof -
  have g: "map_of (graphs (engine_with ambiguous_graph)) ''g1'' = Some ambiguous_graph"
    using engine_with_graph [of ambiguous_graph] by (simp add: ambiguous_graph_def)
  have r: "run_graph (engine_with ambiguous_graph) ''r1'' ''g1'' [] =
     Some (Inl (ValueError (multiple_edges_msg ''B'')),
           (engine_with ambiguous_graph)
             \<lparr>runs := AList.update ''r1''
                ((new_run ''r1'' ''g1'' [])
                   \<lparr>status := ''failed'', error := Some (multiple_edges_msg ''B'')\<rparr>)
                (runs (engine_with ambiguous_graph))\<rparr>)"
    using run_graph_failed [OF g ambiguous_graph_execute, of "''r1''"] by simp
  from failed_run_record [OF g r] g r show ?thesis by simp
qed

end
